theory Spec2Isabelle
  imports Complex_Main "HOL-Library.Word" "HOL-Library.Sublist"
begin

section \<open>JavaScript values\<close>

text \<open>
  A JavaScript string is a sequence of UTF-16 code units, and \<open>length\<close> counts code
  units. A \<open>Uint8Array\<close> is a sequence of bytes. An \<open>Error\<close> carries a message; the
  code under study builds errors from message strings only, so a thrown \<open>Error\<close> is
  modelled by its message. Lengths, counters, timestamps and delays are integers far below
  \<open>2^53\<close>, where JavaScript's numbers are exact; half of a length is a real number.
\<close>

type_synonym jschar = "16 word"
type_synonym jsstring = "jschar list"
type_synonym byte = "8 word"

definition js :: "string \<Rightarrow> jsstring" where
  \<comment> \<open>an ASCII/Latin-1 literal as code units\<close>
  "js s = map (\<lambda>c. of_nat (of_char c)) s"

definition isWhiteSpace :: "jschar \<Rightarrow> bool" where
  \<comment> \<open>the code units \<open>String.prototype.trim\<close> strips: WhiteSpace and LineTerminator\<close>
  "isWhiteSpace c \<longleftrightarrow>
     c = 0x09 \<or> c = 0x0A \<or> c = 0x0B \<or> c = 0x0C \<or> c = 0x0D \<or> c = 0x20 \<or> c = 0xA0
     \<or> c = 0x1680 \<or> (0x2000 \<le> c \<and> c \<le> 0x200A) \<or> c = 0x2028 \<or> c = 0x2029
     \<or> c = 0x202F \<or> c = 0x205F \<or> c = 0x3000 \<or> c = 0xFEFF"

definition trimStart :: "jsstring \<Rightarrow> jsstring" where
  "trimStart s = dropWhile isWhiteSpace s"

definition trim :: "jsstring \<Rightarrow> jsstring" where
  "trim s = rev (dropWhile isWhiteSpace (rev (dropWhile isWhiteSpace s)))"

definition isHexChar :: "jschar \<Rightarrow> bool" where
  \<comment> \<open>the character class \<open>[0-9A-Fa-f]\<close>\<close>
  "isHexChar c \<longleftrightarrow>
     (0x30 \<le> c \<and> c \<le> 0x39) \<or> (0x41 \<le> c \<and> c \<le> 0x46) \<or> (0x61 \<le> c \<and> c \<le> 0x66)"

definition hexVal :: "jschar \<Rightarrow> nat" where
  \<comment> \<open>the value of a radix-16 digit\<close>
  "hexVal c =
     (if 0x30 \<le> c \<and> c \<le> 0x39 then unat c - 48
      else if 0x61 \<le> c \<and> c \<le> 0x66 then unat c - 87
      else unat c - 55)"

definition hexDigit :: "nat \<Rightarrow> jschar" where
  \<comment> \<open>the digit \<open>Number.prototype.toString(16)\<close> writes for a value below 16\<close>
  "hexDigit d = of_nat (if d < 10 then 48 + d else 87 + d)"

function toString16 :: "nat \<Rightarrow> jsstring" where
  \<comment> \<open>\<open>n.toString(16)\<close> for a non-negative integer \<open>n\<close>\<close>
  "toString16 n = (if n < 16 then [hexDigit n] else toString16 (n div 16) @ [hexDigit (n mod 16)])"
  by pat_completeness auto
termination
  by (relation "measure id") auto

declare toString16.simps [simp del]

definition padStart :: "nat \<Rightarrow> jschar \<Rightarrow> jsstring \<Rightarrow> jsstring" where
  \<comment> \<open>\<open>s.padStart(targetLength, c)\<close> for a one-character pad string\<close>
  "padStart targetLength c s = replicate (targetLength - length s) c @ s"

definition substr :: "jsstring \<Rightarrow> nat \<Rightarrow> nat \<Rightarrow> jsstring" where
  \<comment> \<open>\<open>s.substr(start, len)\<close> for a non-negative start\<close>
  "substr s start len = take len (drop start s)"

fun digitsValue :: "jsstring \<Rightarrow> nat \<Rightarrow> nat" where
  \<comment> \<open>the integer a run of radix-16 digits denotes, most significant digit first\<close>
  "digitsValue [] acc = acc"
| "digitsValue (c # cs) acc = digitsValue cs (16 * acc + hexVal c)"

definition parseInt16 :: "jsstring \<Rightarrow> int option" where
  \<comment> \<open>\<open>parseInt(s, 16)\<close>: leading white space is skipped, then an optional sign and an
      optional \<open>0x\<close>/\<open>0X\<close> prefix, then the longest run of digits; \<open>None\<close> is NaN\<close>
  "parseInt16 s =
     (let S = trimStart s;
          sign = (if S \<noteq> [] \<and> hd S = 0x2D then - 1 else 1 :: int);
          S1 = (if S \<noteq> [] \<and> (hd S = 0x2B \<or> hd S = 0x2D) then tl S else S);
          S2 = (if length S1 \<ge> 2 \<and> hd S1 = 0x30 \<and> (hd (tl S1) = 0x78 \<or> hd (tl S1) = 0x58)
                then drop 2 S1 else S1);
          Z = takeWhile isHexChar S2
      in if Z = [] then None else Some (sign * int (digitsValue Z 0)))"

definition toUint8 :: "int option \<Rightarrow> byte" where
  \<comment> \<open>storing a number into a \<open>Uint8Array\<close> slot: NaN becomes 0, an integer is taken modulo 256\<close>
  "toUint8 v = (case v of None \<Rightarrow> 0 | Some n \<Rightarrow> word_of_int n)"

section \<open>Hex codec: \<open>CryptoUtils\<close> (dist/utils/CryptoUtils.js)\<close>

definition hexRegex_test :: "jsstring \<Rightarrow> bool" where
  \<comment> \<open>\<open>/^[0-9A-Fa-f]+$/.test(s)\<close>\<close>
  "hexRegex_test s \<longleftrightarrow> s \<noteq> [] \<and> list_all isHexChar s"

definition isValidHex :: "jsstring \<Rightarrow> bool" where
  "isValidHex hex = hexRegex_test (trim hex)"

definition msgInvalidHex :: jsstring where
  \<comment> \<open>the message text of the thrown Error; 0xE1 is a-acute\<close>
  "msgInvalidHex = js ''String hexadecimal inv'' @ [0xE1] @ js ''lida''"

function hexLoop :: "jsstring \<Rightarrow> nat \<Rightarrow> byte list \<Rightarrow> byte list" where
  \<comment> \<open>\<open>for (let i = 0; i < normalizedHex.length; i += 2) result[i / 2] = parseInt(...)\<close>;
      a write outside a typed array is ignored, as \<open>list_update\<close> does\<close>
  "hexLoop normalizedHex i result =
     (if i < length normalizedHex
      then hexLoop normalizedHex (i + 2)
             (result[i div 2 := toUint8 (parseInt16 (substr normalizedHex i 2))])
      else result)"
  by pat_completeness auto
termination
  by (relation "measure (\<lambda>(h, i, r). length h - i)") auto

declare hexLoop.simps [simp del]

definition hexToUint8Array :: "jsstring \<Rightarrow> jsstring + byte list" where
  "hexToUint8Array hexString =
     (let cleanHex = trim hexString in
      if \<not> isValidHex cleanHex then Inl msgInvalidHex
      else
        let normalizedHex = (if length cleanHex mod 2 = 0 then cleanHex else 0x30 # cleanHex)
        in Inr (hexLoop normalizedHex 0 (replicate (length normalizedHex div 2) 0)))"

definition uint8ArrayToHex :: "byte list \<Rightarrow> jsstring" where
  "uint8ArrayToHex array = concat (map (\<lambda>byte. padStart 2 0x30 (toString16 (unat byte))) array)"

definition isValidKeySize :: "jsstring \<Rightarrow> bool" where
  \<comment> \<open>\<open>keyHex.length / 2\<close> is a division of numbers: an odd length gives a half\<close>
  "isValidKeySize keyHex =
     (let keyBytes = real (length keyHex) / 2
      in keyBytes = 16 \<or> keyBytes = 24 \<or> keyBytes = 32)"

definition isValidIVSize :: "jsstring \<Rightarrow> nat \<Rightarrow> bool" where
  "isValidIVSize ivHex expectedLength =
     (let ivBytes = real (length ivHex) / 2 in ivBytes = real expectedLength)"

function toString10 :: "nat \<Rightarrow> jsstring" where
  \<comment> \<open>the decimal digits of a non-negative integer, as template literals and \<open>String(n)\<close> write them\<close>
  "toString10 n =
     (if n < 10 then [of_nat (48 + n)] else toString10 (n div 10) @ [of_nat (48 + n mod 10)])"
  by pat_completeness auto
termination
  by (relation "measure id") auto

declare toString10.simps [simp del]

definition numberToString :: "int \<Rightarrow> jsstring" where
  \<comment> \<open>an integer-valued number below \<open>10^21\<close> in absolute value, as a template literal writes it\<close>
  "numberToString i = (if i < 0 then 0x2D # toString10 (nat (- i)) else toString10 (nat i))"

section \<open>Parameter validation and cipher adapter: \<open>AESCrypto\<close> (dist/crypto/AESCrypto.js)\<close>

datatype operation = Encrypt | Decrypt

record AESConfig =
  algorithm :: jsstring
  keyLength :: nat
  ivLength :: nat

definition defaultConfig :: AESConfig where
  \<comment> \<open>the constructor's default argument\<close>
  "defaultConfig = \<lparr>algorithm = js ''AES-CBC'', keyLength = 128, ivLength = 16\<rparr>"

text \<open>The message texts of the errors thrown; 0xE7, 0xE3 and 0xE1 are c-cedilla, a-tilde and a-acute.\<close>

definition msgMissingParameter :: "operation \<Rightarrow> jsstring" where
  "msgMissingParameter operation =
     js ''Para '' @ (if operation = Encrypt then js ''encriptar'' else js ''decriptar'')
       @ js '', forne'' @ [0xE7] @ js ''a uma chave e IV v'' @ [0xE1] @ js ''lidos.''"

definition msgKeyNotHex :: jsstring where
  "msgKeyNotHex = js ''Chave deve ser uma string hexadecimal v'' @ [0xE1] @ js ''lida.''"

definition msgIvNotHex :: jsstring where
  "msgIvNotHex = js ''IV deve ser uma string hexadecimal v'' @ [0xE1] @ js ''lida.''"

definition msgInvalidKeySize :: jsstring where
  "msgInvalidKeySize = js ''Chave deve ter 128, 192 ou 256 bits (16, 24 ou 32 bytes).''"

definition msgInvalidIVSize :: "nat \<Rightarrow> jsstring" where
  "msgInvalidIVSize n =
     js ''IV deve ter '' @ toString10 n @ js '' bytes ('' @ toString10 (n * 2) @ js '' caracteres hex).''"

definition msgEmptyPlainText :: jsstring where
  "msgEmptyPlainText =
     js ''Texto para encripta'' @ [0xE7, 0xE3] @ js ''o n'' @ [0xE3] @ js ''o pode estar vazio.''"

definition msgEmptyEncrypted :: jsstring where
  "msgEmptyEncrypted =
     js ''Dados para decripta'' @ [0xE7, 0xE3] @ js ''o n'' @ [0xE3] @ js ''o podem estar vazios.''"

definition msgEncryptedNotHex :: jsstring where
  "msgEncryptedNotHex =
     js ''Dados encriptados devem ser uma string hexadecimal v'' @ [0xE1] @ js ''lida.''"

definition encryptErrorPrefix :: jsstring where
  "encryptErrorPrefix = js ''Erro na encripta'' @ [0xE7, 0xE3] @ js ''o: ''"

definition encryptErrorUnknown :: jsstring where
  "encryptErrorUnknown = js ''Erro desconhecido na encripta'' @ [0xE7, 0xE3] @ js ''o''"

definition decryptErrorPrefix :: jsstring where
  "decryptErrorPrefix = js ''Erro na decripta'' @ [0xE7, 0xE3] @ js ''o: ''"

definition decryptErrorUnknown :: jsstring where
  "decryptErrorUnknown = js ''Erro desconhecido na decripta'' @ [0xE7, 0xE3] @ js ''o''"

definition validateParameters :: "AESConfig \<Rightarrow> jsstring \<Rightarrow> jsstring \<Rightarrow> operation \<Rightarrow> jsstring + unit" where
  \<comment> \<open>\<open>Inl\<close> is the message of the thrown Error; an empty string is falsy\<close>
  "validateParameters config keyHex ivHex operation =
     (if keyHex = [] \<or> ivHex = [] then Inl (msgMissingParameter operation)
      else if \<not> isValidHex keyHex then Inl msgKeyNotHex
      else if \<not> isValidHex ivHex then Inl msgIvNotHex
      else if \<not> isValidKeySize keyHex then Inl msgInvalidKeySize
      else if \<not> isValidIVSize ivHex (ivLength config) then Inl (msgInvalidIVSize (ivLength config))
      else Inr ())"

text \<open>
  The platform (Web Crypto, \<open>TextEncoder\<close>, \<open>TextDecoder\<close>) is a parameter. A platform call
  either returns or throws; what is thrown is an \<open>Error\<close> with a message (a
  \<open>DOMException\<close> is one) or some other value. Every call of the cipher (key import,
  encrypt and decrypt primitives) is recorded, in order.
\<close>

datatype thrown = ErrorObj jsstring | NonError

datatype cipherCall =
    ImportKey "byte list" jsstring
  | SubtleEncrypt jsstring "byte list" "byte list"
  | SubtleDecrypt jsstring "byte list" "byte list"

record 'k platform =
  importKey :: "byte list \<Rightarrow> jsstring \<Rightarrow> thrown + 'k"
  subtleEncrypt :: "jsstring \<Rightarrow> byte list \<Rightarrow> 'k \<Rightarrow> byte list \<Rightarrow> thrown + byte list"
  subtleDecrypt :: "jsstring \<Rightarrow> byte list \<Rightarrow> 'k \<Rightarrow> byte list \<Rightarrow> thrown + byte list"
  textEncode :: "jsstring \<Rightarrow> byte list"
  textDecode :: "byte list \<Rightarrow> jsstring"

definition createCryptoKey :: "'k platform \<Rightarrow> AESConfig \<Rightarrow> byte list \<Rightarrow> thrown + 'k" where
  \<comment> \<open>\<open>crypto.subtle.importKey('raw', buffer, {name: algorithm}, false, ['encrypt', 'decrypt'])\<close>
      on a copy of the key bytes\<close>
  "createCryptoKey P config keyData = importKey P keyData (algorithm config)"

definition encryptTry :: "'k platform \<Rightarrow> AESConfig \<Rightarrow> jsstring \<Rightarrow> jsstring \<Rightarrow> jsstring
    \<Rightarrow> (thrown + jsstring) \<times> cipherCall list" where
  \<comment> \<open>the \<open>try\<close> block of \<open>encrypt\<close>: what it returns or throws, and the cipher calls made\<close>
  "encryptTry P config plainText keyHex ivHex =
     (case validateParameters config keyHex ivHex Encrypt of
        Inl m \<Rightarrow> (Inl (ErrorObj m), [])
      | Inr u \<Rightarrow>
          (if plainText = [] then (Inl (ErrorObj msgEmptyPlainText), [])
           else (case hexToUint8Array keyHex of
             Inl m \<Rightarrow> (Inl (ErrorObj m), [])
           | Inr keyData \<Rightarrow>
               (case hexToUint8Array ivHex of
                  Inl m \<Rightarrow> (Inl (ErrorObj m), [])
                | Inr ivData \<Rightarrow>
                    (let plainTextBuffer = textEncode P plainText;
                         call1 = ImportKey keyData (algorithm config)
                     in (case createCryptoKey P config keyData of
                           Inl t \<Rightarrow> (Inl t, [call1])
                         | Inr cryptoKey \<Rightarrow>
                             (let call2 = SubtleEncrypt (algorithm config) ivData plainTextBuffer
                              in (case subtleEncrypt P (algorithm config) ivData cryptoKey plainTextBuffer of
                                    Inl t \<Rightarrow> (Inl t, [call1, call2])
                                  | Inr encryptedBuffer \<Rightarrow>
                                      (Inr (uint8ArrayToHex encryptedBuffer), [call1, call2])))))))))"

definition encrypt :: "'k platform \<Rightarrow> AESConfig \<Rightarrow> jsstring \<Rightarrow> jsstring \<Rightarrow> jsstring
    \<Rightarrow> (jsstring + jsstring) \<times> cipherCall list" where
  \<comment> \<open>\<open>Inl\<close> is the message of the Error the returned promise rejects with\<close>
  "encrypt P config plainText keyHex ivHex =
     (case encryptTry P config plainText keyHex ivHex of
        (Inr encryptedHex, calls) \<Rightarrow> (Inr encryptedHex, calls)
      | (Inl (ErrorObj message), calls) \<Rightarrow> (Inl (encryptErrorPrefix @ message), calls)
      | (Inl NonError, calls) \<Rightarrow> (Inl encryptErrorUnknown, calls))"

definition decryptTry :: "'k platform \<Rightarrow> AESConfig \<Rightarrow> jsstring \<Rightarrow> jsstring \<Rightarrow> jsstring
    \<Rightarrow> (thrown + jsstring) \<times> cipherCall list" where
  "decryptTry P config encryptedHex keyHex ivHex =
     (case validateParameters config keyHex ivHex Decrypt of
        Inl m \<Rightarrow> (Inl (ErrorObj m), [])
      | Inr u \<Rightarrow>
          (if encryptedHex = [] then (Inl (ErrorObj msgEmptyEncrypted), [])
           else if \<not> isValidHex encryptedHex then (Inl (ErrorObj msgEncryptedNotHex), [])
           else (case hexToUint8Array keyHex of
             Inl m \<Rightarrow> (Inl (ErrorObj m), [])
           | Inr keyData \<Rightarrow>
               (case hexToUint8Array ivHex of
                  Inl m \<Rightarrow> (Inl (ErrorObj m), [])
                | Inr ivData \<Rightarrow>
                    (case hexToUint8Array encryptedHex of
                       Inl m \<Rightarrow> (Inl (ErrorObj m), [])
                     | Inr encryptedData \<Rightarrow>
                         (let call1 = ImportKey keyData (algorithm config)
                          in (case createCryptoKey P config keyData of
                                Inl t \<Rightarrow> (Inl t, [call1])
                              | Inr cryptoKey \<Rightarrow>
                                  (let call2 = SubtleDecrypt (algorithm config) ivData encryptedData
                                   in (case subtleDecrypt P (algorithm config) ivData cryptoKey encryptedData of
                                         Inl t \<Rightarrow> (Inl t, [call1, call2])
                                       | Inr decryptedBuffer \<Rightarrow>
                                           (Inr (textDecode P decryptedBuffer), [call1, call2]))))))))))"

definition decrypt :: "'k platform \<Rightarrow> AESConfig \<Rightarrow> jsstring \<Rightarrow> jsstring \<Rightarrow> jsstring
    \<Rightarrow> (jsstring + jsstring) \<times> cipherCall list" where
  "decrypt P config encryptedHex keyHex ivHex =
     (case decryptTry P config encryptedHex keyHex ivHex of
        (Inr plainText, calls) \<Rightarrow> (Inr plainText, calls)
      | (Inl (ErrorObj message), calls) \<Rightarrow> (Inl (decryptErrorPrefix @ message), calls)
      | (Inl NonError, calls) \<Rightarrow> (Inl decryptErrorUnknown, calls))"

definition stubPlatform :: "thrown + unit \<Rightarrow> thrown + byte list \<Rightarrow> unit platform" where
  \<comment> \<open>a platform for concrete runs: key import and both primitives answer as given\<close>
  "stubPlatform imported transformed =
     \<lparr>importKey = (\<lambda>keyData alg. imported),
      subtleEncrypt = (\<lambda>alg iv key data. transformed),
      subtleDecrypt = (\<lambda>alg iv key data. transformed),
      textEncode = map ucast,
      textDecode = map ucast\<rparr>"

definition zeros32 :: jsstring where
  \<comment> \<open>a test vector: 32 hex digits, a 16-byte key or IV of zeros\<close>
  "zeros32 = js ''00000000000000000000000000000000''"

section \<open>Hex codec of the single-file script: static \<open>CryptoUtils\<close> (src/unnamed/part_002)\<close>

definition isValidHex_static :: "jsstring \<Rightarrow> bool" where
  \<comment> \<open>\<open>/^[0-9A-Fa-f]*$/.test(hex) && hex.length % 2 === 0\<close>\<close>
  "isValidHex_static hex \<longleftrightarrow> list_all isHexChar hex \<and> length hex mod 2 = 0"

section \<open>Reference notions used to state the properties\<close>

fun decodePairs :: "jsstring \<Rightarrow> byte list" where
  \<comment> \<open>one byte per pair of hex digits, in order\<close>
  "decodePairs (a # b # rest) = toUint8 (parseInt16 [a, b]) # decodePairs rest"
| "decodePairs [a] = [toUint8 (parseInt16 [a])]"
| "decodePairs [] = []"

definition asciiLower :: "jschar \<Rightarrow> jschar" where
  \<comment> \<open>lowercase normalisation of a letter \<open>A\<close>..\<open>Z\<close>\<close>
  "asciiLower c = (if 0x41 \<le> c \<and> c \<le> 0x5A then c + 0x20 else c)"

section \<open>The page: elements, document and timers\<close>

text \<open>
  Elements have an identity (a node), so that a closure holding an element and a later
  lookup by id can be told apart. The state of the page keeps every element created, the
  elements that are in the document in tree order, and the pending \<open>setTimeout\<close> callbacks
  with their delays. Message elements are leaves, and a child appended to an element of the
  document comes last in tree order here. An element holds what was last assigned to it:
  text through \<open>textContent\<close>, or markup through \<open>innerHTML\<close>; reading the other of the
  two goes through the browser's HTML parser and serialiser, which are parameters. The
  attribute \<open>data-empty\<close> is \<open>dataEmpty\<close>, and \<open>None\<close> is its absence. The window's
  selection (the cursor) is not part of the state.
\<close>

type_synonym node = nat

datatype content = Text jsstring | Markup jsstring

record element =
  elemId :: jsstring
  tagName :: jsstring
  contentEditable :: jsstring
  classList :: "jsstring list"
  content :: content
  fieldValue :: jsstring
  opacity :: jsstring
  transition :: jsstring
  dataEmpty :: "jsstring option"
  parentNode :: "node option"

datatype callback = FadeIn node | AutoRemove jsstring | Detach node

datatype messageType = MsgInfo | MsgSuccess | MsgError | MsgWarning

record MessageConfig =
  baseDuration :: int
  durationFactor :: int
  fadeTimeout :: int

record DOMElements =
  generateKey :: node
  encryptButton :: node
  decryptButton :: node
  aesKey :: node
  iv :: node
  encryptInput :: node
  decryptInput :: node
  report :: node

record htmlPlatform =
  reserialize :: "jsstring \<Rightarrow> jsstring"
  markupText :: "jsstring \<Rightarrow> jsstring"
  textMarkup :: "jsstring \<Rightarrow> jsstring"

text \<open>
  \<open>reserialize m\<close> is what \<open>innerHTML\<close> reads after \<open>m\<close> was assigned to it, \<open>markupText m\<close>
  is what \<open>textContent\<close> reads then, and \<open>textMarkup t\<close> is what \<open>innerHTML\<close> reads after
  \<open>t\<close> was assigned to \<open>textContent\<close>.
\<close>

record uiState =
  elements :: DOMElements
  messageConfig :: MessageConfig
  messageCounter :: nat
  store :: "node \<Rightarrow> element"
  attached :: "node list"
  fresh :: node
  timers :: "(int \<times> callback) list"
  htmlParser :: htmlPlatform
  activeElement :: "node option"

definition typeName :: "messageType \<Rightarrow> jsstring" where
  "typeName t = (case t of MsgInfo \<Rightarrow> js ''info'' | MsgSuccess \<Rightarrow> js ''success''
                 | MsgError \<Rightarrow> js ''error'' | MsgWarning \<Rightarrow> js ''warning'')"

definition updateElement :: "node \<Rightarrow> (element \<Rightarrow> element) \<Rightarrow> uiState \<Rightarrow> uiState" where
  \<comment> \<open>an assignment to properties of one element\<close>
  "updateElement n f s = s\<lparr>store := (store s)(n := f (store s n))\<rparr>"

definition toUpperCase :: "jsstring \<Rightarrow> jsstring" where
  \<comment> \<open>for ASCII names\<close>
  "toUpperCase s = map (\<lambda>c. if 0x61 \<le> c \<and> c \<le> 0x7A then c - 0x20 else c) s"

definition toLowerCase :: "jsstring \<Rightarrow> jsstring" where
  \<comment> \<open>for ASCII names\<close>
  "toLowerCase s = map (\<lambda>c. if 0x41 \<le> c \<and> c \<le> 0x5A then c + 0x20 else c) s"

definition createElement :: "jsstring \<Rightarrow> uiState \<Rightarrow> node \<times> uiState" where
  \<comment> \<open>\<open>document.createElement(tag)\<close>: a new element outside the document\<close>
  "createElement tag s =
     (fresh s,
      s\<lparr>store := (store s)(fresh s :=
            \<lparr>elemId = [], tagName = toUpperCase tag, contentEditable = js ''inherit'',
             classList = [], content = Text [], fieldValue = [], opacity = [],
             transition = [], dataEmpty = None, parentNode = None\<rparr>),
        fresh := fresh s + 1\<rparr>)"

definition appendChild :: "node \<Rightarrow> node \<Rightarrow> uiState \<Rightarrow> uiState" where
  \<comment> \<open>\<open>parent.appendChild(child)\<close>; the child is in the document when the parent is\<close>
  "appendChild parent child s =
     s\<lparr>store := (store s)(child := (store s child)\<lparr>parentNode := Some parent\<rparr>),
       attached := (if parent \<in> set (attached s) then removeAll child (attached s) @ [child]
                    else removeAll child (attached s))\<rparr>"

definition removeChild :: "node \<Rightarrow> uiState \<Rightarrow> uiState" where
  \<comment> \<open>\<open>child.parentNode.removeChild(child)\<close>\<close>
  "removeChild child s =
     s\<lparr>store := (store s)(child := (store s child)\<lparr>parentNode := None\<rparr>),
       attached := removeAll child (attached s)\<rparr>"

definition getElementById :: "uiState \<Rightarrow> jsstring \<Rightarrow> node option" where
  \<comment> \<open>the first element of the document, in tree order, with this id; \<open>None\<close> is null\<close>
  "getElementById s i = find (\<lambda>n. elemId (store s n) = i) (attached s)"

definition setTimeout :: "callback \<Rightarrow> int \<Rightarrow> uiState \<Rightarrow> uiState" where
  "setTimeout cb delay s = s\<lparr>timers := timers s @ [(delay, cb)]\<rparr>"

definition classList_add :: "jsstring \<Rightarrow> element \<Rightarrow> element" where
  \<comment> \<open>\<open>element.classList.add(token)\<close>\<close>
  "classList_add token e =
     (if token \<in> set (classList e) then e else e\<lparr>classList := classList e @ [token]\<rparr>)"

fun splitOn :: "jschar \<Rightarrow> jsstring \<Rightarrow> jsstring list" where
  \<comment> \<open>\<open>s.split(sep)\<close> for a one-character separator\<close>
  "splitOn sep [] = [[]]"
| "splitOn sep (c # cs) =
     (if c = sep then [] # splitOn sep cs
      else (case splitOn sep cs of [] \<Rightarrow> [[c]] | w # ws \<Rightarrow> (c # w) # ws))"

section \<open>Messages of the module \<open>UIManager\<close> (src/unnamed/part_004)\<close>

definition defaultMessageConfig :: MessageConfig where
  \<comment> \<open>the constructor's default argument\<close>
  "defaultMessageConfig = \<lparr>baseDuration = 3000, durationFactor = 50, fadeTimeout = 300\<rparr>"

definition calculateMessageDuration :: "MessageConfig \<Rightarrow> jsstring \<Rightarrow> int" where
  "calculateMessageDuration config message =
     (let wordCount = length (splitOn 0x20 message)
      in max (baseDuration config) (baseDuration config + int wordCount * durationFactor config))"

definition addMessage :: "jsstring \<Rightarrow> messageType \<Rightarrow> int \<Rightarrow> uiState \<Rightarrow> jsstring \<times> uiState" where
  \<comment> \<open>\<open>now\<close> is what \<open>Date.now()\<close> returns during the call\<close>
  "addMessage message type now s =
     (let s1 = s\<lparr>messageCounter := messageCounter s + 1\<rparr>;
          messageId = js ''msg-'' @ toString10 (messageCounter s1) @ js ''-'' @ numberToString now;
          duration = calculateMessageDuration (messageConfig s1) message;
          (messageElement, s2) = createElement (js ''div'') s1;
          s3 = updateElement messageElement (\<lambda>e. e\<lparr>classList := [js ''message'', typeName type]\<rparr>) s2;
          s4 = updateElement messageElement (\<lambda>e. e\<lparr>elemId := messageId\<rparr>) s3;
          s5 = updateElement messageElement (\<lambda>e. e\<lparr>content := Text message\<rparr>) s4;
          s6 = appendChild (report (elements s5)) messageElement s5;
          s7 = setTimeout (FadeIn messageElement) 10 s6;
          s8 = setTimeout (AutoRemove messageId) duration s7
      in (messageId, s8))"

definition removeMessage :: "jsstring \<Rightarrow> uiState \<Rightarrow> uiState" where
  "removeMessage messageId s =
     (case getElementById s messageId of
        None \<Rightarrow> s
      | Some messageElement \<Rightarrow>
          setTimeout (Detach messageElement) (fadeTimeout (messageConfig s))
            (updateElement messageElement (classList_add (js ''fade-out'')) s))"

definition runCallback :: "callback \<Rightarrow> uiState \<Rightarrow> uiState" where
  \<comment> \<open>the bodies of the arrow functions given to \<open>setTimeout\<close>\<close>
  "runCallback cb s =
     (case cb of
        FadeIn messageElement \<Rightarrow> updateElement messageElement (classList_add (js ''show'')) s
      | AutoRemove messageId \<Rightarrow> removeMessage messageId s
      | Detach messageElement \<Rightarrow>
          (if parentNode (store s messageElement) \<noteq> None then removeChild messageElement s else s))"

section \<open>Messages of the single-file script's \<open>UIManager\<close> (src/unnamed/part_002)\<close>

definition scriptMessageConfig :: MessageConfig where
  \<comment> \<open>set by the constructor\<close>
  "scriptMessageConfig = \<lparr>baseDuration = 3000, durationFactor = 50, fadeTimeout = 300\<rparr>"

definition generateMessageId_script :: "int \<Rightarrow> uiState \<Rightarrow> jsstring \<times> uiState" where
  "generateMessageId_script now s =
     (let s1 = s\<lparr>messageCounter := messageCounter s + 1\<rparr>
      in (js ''report_'' @ toString10 (messageCounter s1) @ js ''_'' @ numberToString now, s1))"

definition calculateMessageDuration_script :: "MessageConfig \<Rightarrow> jsstring \<Rightarrow> int" where
  "calculateMessageDuration_script config message =
     baseDuration config + int (length message) * durationFactor config"

definition addMessage_script :: "jsstring \<Rightarrow> messageType \<Rightarrow> int \<Rightarrow> uiState \<Rightarrow> jsstring \<times> uiState" where
  "addMessage_script message type now s =
     (let (messageId, s1) = generateMessageId_script now s;
          duration = calculateMessageDuration_script (messageConfig s1) message;
          (messageElement, s2) = createElement (js ''p'') s1;
          s3 = updateElement messageElement (\<lambda>e. e\<lparr>elemId := messageId\<rparr>) s2;
          s4 = updateElement messageElement
                 (\<lambda>e. e\<lparr>classList := [js ''message'', js ''message-'' @ typeName type]\<rparr>) s3;
          s5 = updateElement messageElement (\<lambda>e. e\<lparr>content := Text message\<rparr>) s4;
          s6 = appendChild (report (elements s5)) messageElement s5;
          s7 = updateElement messageElement (\<lambda>e. e\<lparr>opacity := js ''0''\<rparr>) s6;
          s8 = updateElement messageElement
                 (\<lambda>e. e\<lparr>transition := js ''opacity '' @ numberToString (fadeTimeout (messageConfig s7))
                                          @ js ''ms ease-in-out''\<rparr>) s7;
          s9 = setTimeout (FadeIn messageElement) 10 s8;
          s10 = setTimeout (AutoRemove messageId) duration s9
      in (messageId, s10))"

definition removeMessage_script :: "jsstring \<Rightarrow> uiState \<Rightarrow> uiState" where
  "removeMessage_script messageId s =
     (case getElementById s messageId of
        None \<Rightarrow> s
      | Some messageElement \<Rightarrow>
          setTimeout (Detach messageElement) (fadeTimeout (messageConfig s))
            (updateElement messageElement (\<lambda>e. e\<lparr>opacity := js ''0''\<rparr>) s))"

definition runCallback_script :: "callback \<Rightarrow> uiState \<Rightarrow> uiState" where
  "runCallback_script cb s =
     (case cb of
        FadeIn messageElement \<Rightarrow> updateElement messageElement (\<lambda>e. e\<lparr>opacity := js ''1''\<rparr>) s
      | AutoRemove messageId \<Rightarrow> removeMessage_script messageId s
      | Detach messageElement \<Rightarrow>
          (if parentNode (store s messageElement) \<noteq> None then removeChild messageElement s else s))"

section \<open>Writing results to the fields\<close>

definition setElementValue_script :: "node \<Rightarrow> jsstring \<Rightarrow> uiState \<Rightarrow> uiState" where
  \<comment> \<open>\<open>setElementValue\<close> of the script\<close>
  "setElementValue_script element val s =
     (if toLowerCase (tagName (store s element)) = js ''div''
         \<and> contentEditable (store s element) = js ''true''
      then updateElement element (\<lambda>e. e\<lparr>content := Text val\<rparr>) s
      else updateElement element (\<lambda>e. e\<lparr>fieldValue := val\<rparr>) s)"

definition elementByKey :: "DOMElements \<Rightarrow> jsstring \<Rightarrow> node option" where
  \<comment> \<open>\<open>this.elements[key]\<close> for the eight own properties; \<open>None\<close> is undefined\<close>
  "elementByKey els key =
     (if key = js ''generateKey'' then Some (generateKey els)
      else if key = js ''encryptButton'' then Some (encryptButton els)
      else if key = js ''decryptButton'' then Some (decryptButton els)
      else if key = js ''aesKey'' then Some (aesKey els)
      else if key = js ''iv'' then Some (iv els)
      else if key = js ''encryptInput'' then Some (encryptInput els)
      else if key = js ''decryptInput'' then Some (decryptInput els)
      else if key = js ''report'' then Some (report els)
      else None)"

definition setOutputValues_script :: "(jsstring \<times> jsstring) list \<Rightarrow> uiState \<Rightarrow> uiState" where
  \<comment> \<open>\<open>setOutputValues\<close> of the script; \<open>values\<close> lists the object's own properties in
      order, and an empty string is falsy\<close>
  "setOutputValues_script vals s =
     (let s1 = (case map_of vals (js ''encryptedOutput'') of
                  Some v \<Rightarrow> if v \<noteq> [] then setElementValue_script (decryptInput (elements s)) v s else s
                | None \<Rightarrow> s);
          s2 = (case map_of vals (js ''decryptedOutput'') of
                  Some v \<Rightarrow> if v \<noteq> [] then setElementValue_script (encryptInput (elements s1)) v s1 else s1
                | None \<Rightarrow> s1)
      in fold (\<lambda>(key, v) st.
                 if key \<noteq> js ''encryptedOutput'' \<and> key \<noteq> js ''decryptedOutput''
                 then (case elementByKey (elements st) key of
                         Some element \<Rightarrow> setElementValue_script element v st
                       | None \<Rightarrow> st)
                 else st)
           vals s2)"

fun replaceNewlines :: "jsstring \<Rightarrow> jsstring" where
  \<comment> \<open>\<open>value.replace(/\n/g, '<br>')\<close>\<close>
  "replaceNewlines [] = []"
| "replaceNewlines (c # cs) = (if c = 0x0A then js ''<br>'' @ replaceNewlines cs else c # replaceNewlines cs)"

subsection \<open>Regular expressions of the module\<close>

text \<open>
  The patterns of \<open>normalizeContentEditableHTML\<close> are matched as JavaScript does: alternatives
  are tried in order with backtracking, quantifiers are greedy, and an iteration of \<open>*\<close> that
  consumes nothing is refused. \<open>matchR r s\<close> lists, in that order, what is left of \<open>s\<close> after
  each way \<open>r\<close> matches at its start; the first one is the match. All patterns carry the flag
  \<open>i\<close>: characters are compared after \<open>canonicalize\<close>, which for the ASCII characters of
  these patterns is the uppercase of \<open>a\<close>..\<open>z\<close>.
\<close>

datatype regex =
    Eps
  | Lit jschar
  | NotChar jschar
  | Space
  | Seq regex regex
  | Opt regex
  | Star regex
  | NegLookahead regex

definition canonicalize :: "jschar \<Rightarrow> jschar" where
  "canonicalize c = (if 0x61 \<le> c \<and> c \<le> 0x7A then c - 0x20 else c)"

function matchR :: "regex \<Rightarrow> jsstring \<Rightarrow> jsstring list" where
  "matchR Eps s = [s]"
| "matchR (Lit c) s =
     (case s of [] \<Rightarrow> [] | x # xs \<Rightarrow> if canonicalize x = canonicalize c then [xs] else [])"
| "matchR (NotChar c) s =
     (case s of [] \<Rightarrow> [] | x # xs \<Rightarrow> if canonicalize x \<noteq> canonicalize c then [xs] else [])"
| "matchR Space s = (case s of [] \<Rightarrow> [] | x # xs \<Rightarrow> if isWhiteSpace x then [xs] else [])"
| "matchR (Seq a b) s = concat (map (\<lambda>s'. matchR b s') (matchR a s))"
| "matchR (Opt a) s = matchR a s @ [s]"
| "matchR (Star a) s =
     concat (map (\<lambda>s'. if length s' < length s then matchR (Star a) s' else []) (matchR a s)) @ [s]"
| "matchR (NegLookahead a) s = (if matchR a s = [] then [s] else [])"
  by pat_completeness auto
termination
  by (relation "measure size <*lex*> measure length") auto

declare matchR.simps [simp del]

function replaceAll :: "regex \<Rightarrow> jsstring \<Rightarrow> jsstring \<Rightarrow> jsstring" where
  \<comment> \<open>\<open>s.replace(/r/g, rep)\<close> for a replacement without \<open>$\<close>: matches are looked for from
      left to right, each search starting where the last match ended; after an empty match
      one character is copied\<close>
  "replaceAll r rep s =
     (case matchR r s of
        [] \<Rightarrow> (case s of [] \<Rightarrow> [] | c # cs \<Rightarrow> c # replaceAll r rep cs)
      | s' # others \<Rightarrow>
          if length s' < length s then rep @ replaceAll r rep s'
          else (case s of [] \<Rightarrow> rep | c # cs \<Rightarrow> rep @ c # replaceAll r rep cs))"
  by pat_completeness auto
termination
  by (relation "measure (\<lambda>(r, rep, s). length s)") auto

declare replaceAll.simps [simp del]

definition seqs :: "regex list \<Rightarrow> regex" where
  "seqs rs = foldr Seq rs Eps"

definition lits :: "jsstring \<Rightarrow> regex list" where
  "lits s = map Lit s"

definition rxDivBr :: regex where
  \<comment> \<open>\<open>/<div[^>]*><br[^>]*><\/div>/gi\<close>\<close>
  "rxDivBr = seqs (lits (js ''<div'') @ [Star (NotChar 0x3E)] @ lits (js ''><br'')
                   @ [Star (NotChar 0x3E)] @ lits (js ''></div>''))"

definition rxDivOpen :: regex where
  \<comment> \<open>\<open>/<div[^>]*>/gi\<close>\<close>
  "rxDivOpen = seqs (lits (js ''<div'') @ [Star (NotChar 0x3E)] @ lits (js ''>''))"

definition rxDivClose :: regex where
  \<comment> \<open>\<open>/<\/div>/gi\<close>\<close>
  "rxDivClose = seqs (lits (js ''</div>''))"

definition rxOtherTag :: regex where
  \<comment> \<open>\<open>/<(?!br\s*\/?)[^>]+>/gi\<close>\<close>
  "rxOtherTag =
     seqs (lits (js ''<'')
           @ [NegLookahead (seqs (lits (js ''br'') @ [Star Space, Opt (Lit 0x2F)]))]
           @ [NotChar 0x3E, Star (NotChar 0x3E)] @ lits (js ''>''))"

definition rxBr :: regex where
  \<comment> \<open>the group \<open><br\s*\/?>\s*\<close>\<close>
  "rxBr = seqs (lits (js ''<br'') @ [Star Space, Opt (Lit 0x2F)] @ lits (js ''>'') @ [Star Space])"

definition rxBrRun :: regex where
  \<comment> \<open>\<open>/(<br\s*\/?>\s*){3,}/gi\<close>\<close>
  "rxBrRun = seqs [rxBr, rxBr, rxBr, Star rxBr]"

definition normalizeHTML :: "jsstring \<Rightarrow> jsstring" where
  \<comment> \<open>the five replacements of \<open>normalizeContentEditableHTML\<close>, in order\<close>
  "normalizeHTML html0 =
     (let html1 = replaceAll rxDivBr (js ''<br>'') html0;
          html2 = replaceAll rxDivOpen (js ''<br>'') html1;
          html3 = replaceAll rxDivClose [] html2;
          html4 = replaceAll rxOtherTag [] html3;
          html5 = replaceAll rxBrRun (js ''<br><br>'') html4
      in html5)"

subsection \<open>Editable fields of the module\<close>

definition innerHTML :: "htmlPlatform \<Rightarrow> element \<Rightarrow> jsstring" where
  "innerHTML H e = (case content e of Markup m \<Rightarrow> m | Text t \<Rightarrow> textMarkup H t)"

definition textContent :: "htmlPlatform \<Rightarrow> element \<Rightarrow> jsstring" where
  "textContent H e = (case content e of Text t \<Rightarrow> t | Markup m \<Rightarrow> markupText H m)"

definition set_innerHTML :: "htmlPlatform \<Rightarrow> jsstring \<Rightarrow> element \<Rightarrow> element" where
  \<comment> \<open>\<open>element.innerHTML = html\<close>\<close>
  "set_innerHTML H html e = e\<lparr>content := Markup (reserialize H html)\<rparr>"

definition classList_toggle :: "jsstring \<Rightarrow> bool \<Rightarrow> element \<Rightarrow> element" where
  \<comment> \<open>\<open>element.classList.toggle(token, force)\<close>\<close>
  "classList_toggle token force e =
     (if force then classList_add token e else e\<lparr>classList := removeAll token (classList e)\<rparr>)"

definition checkPlaceholder :: "htmlPlatform \<Rightarrow> bool \<Rightarrow> element \<Rightarrow> element" where
  \<comment> \<open>the closure of \<open>setupContentEditablePlaceholder\<close>; \<open>hasFocus\<close> is
      \<open>element.matches(':focus')\<close>\<close>
  "checkPlaceholder H hasFocus e =
     (let isEmpty = (trim (textContent H e) = []);
          e1 = classList_toggle (js ''empty'') isEmpty e
      in if isEmpty \<and> \<not> hasFocus then e1\<lparr>dataEmpty := Some (js ''true'')\<rparr>
         else e1\<lparr>dataEmpty := None\<rparr>)"

definition normalizeContentEditableHTML :: "htmlPlatform \<Rightarrow> element \<Rightarrow> element" where
  \<comment> \<open>the markup is assigned only when the replacements changed it; the cursor is then put
      back, which changes the selection only\<close>
  "normalizeContentEditableHTML H e =
     (let html = normalizeHTML (innerHTML H e)
      in if innerHTML H e \<noteq> html then set_innerHTML H html e else e)"

definition inputListeners :: "uiState \<Rightarrow> node \<Rightarrow> (element \<Rightarrow> element) list" where
  \<comment> \<open>the \<open>input\<close> listeners the constructor (\<open>initializeContentEditableElements\<close>) registers,
      in the order of registration: on each of the two inputs the placeholder check, then the
      normalisation\<close>
  "inputListeners s element =
     concat (map (\<lambda>registered.
                    if registered = element
                    then [checkPlaceholder (htmlParser s) (activeElement s = Some element),
                          normalizeContentEditableHTML (htmlParser s)]
                    else [])
              [encryptInput (elements s), decryptInput (elements s)])"

definition dispatchInput :: "node \<Rightarrow> uiState \<Rightarrow> uiState" where
  \<comment> \<open>\<open>element.dispatchEvent(new Event('input', {bubbles: true}))\<close>: the listeners of the
      element run in order; the manager registers none on other elements for this event\<close>
  "dispatchInput element s =
     fold (\<lambda>listener st. updateElement element listener st) (inputListeners s element) s"

definition setContentEditableValue :: "node \<Rightarrow> jsstring \<Rightarrow> uiState \<Rightarrow> uiState" where
  "setContentEditableValue element val s =
     (let htmlValue = replaceNewlines val;
          s1 = updateElement element (set_innerHTML (htmlParser s) htmlValue) s
      in dispatchInput element s1)"

definition updateOutputValue :: "jsstring \<Rightarrow> jsstring option \<Rightarrow> uiState \<Rightarrow> uiState" where
  \<comment> \<open>the body of the \<open>forEach\<close> of \<open>updateOutputValues\<close>, for one entry; \<open>None\<close> is undefined\<close>
  "updateOutputValue key v s =
     (case v of
        None \<Rightarrow> s
      | Some val \<Rightarrow>
          if key = js ''aesKey'' then updateElement (aesKey (elements s)) (\<lambda>e. e\<lparr>fieldValue := val\<rparr>) s
          else if key = js ''iv'' then updateElement (iv (elements s)) (\<lambda>e. e\<lparr>fieldValue := val\<rparr>) s
          else if key = js ''encryptedOutput'' then setContentEditableValue (decryptInput (elements s)) val s
          else if key = js ''decryptedOutput'' then setContentEditableValue (encryptInput (elements s)) val s
          else (case getElementById s key of
                  None \<Rightarrow> s
                | Some element \<Rightarrow>
                    if tagName (store s element) = js ''INPUT'' \<or> tagName (store s element) = js ''TEXTAREA''
                    then updateElement element (\<lambda>e. e\<lparr>fieldValue := val\<rparr>) s
                    else updateElement element (\<lambda>e. e\<lparr>content := Text val\<rparr>) s))"

definition updateOutputValues :: "(jsstring \<times> jsstring option) list \<Rightarrow> uiState \<Rightarrow> uiState" where
  "updateOutputValues vals s = fold (\<lambda>(key, v) st. updateOutputValue key v st) vals s"

section \<open>Sessions\<close>

text \<open>
  A session of a manager is a sequence of calls of its methods and of firings of pending
  timers. Running one collects the ids that \<open>addMessage\<close> returned, in order.
\<close>

datatype event =
    AddMessage jsstring messageType int
  | RemoveMessage jsstring
  | FireTimer nat
  | UpdateOutputValues "(jsstring \<times> jsstring option) list"
  | SetOutputValues "(jsstring \<times> jsstring) list"

definition takeTimer :: "nat \<Rightarrow> uiState \<Rightarrow> (callback \<times> uiState) option" where
  \<comment> \<open>the \<open>k\<close>-th pending timer fires: it leaves the pending list\<close>
  "takeTimer k s =
     (if k < length (timers s)
      then Some (snd (timers s ! k), s\<lparr>timers := take k (timers s) @ drop (Suc k) (timers s)\<rparr>)
      else None)"

definition step :: "event \<Rightarrow> uiState \<Rightarrow> jsstring list \<times> uiState" where
  \<comment> \<open>one event on the module \<open>UIManager\<close>\<close>
  "step ev s =
     (case ev of
        AddMessage message type now \<Rightarrow> (let (i, s') = addMessage message type now s in ([i], s'))
      | RemoveMessage messageId \<Rightarrow> ([], removeMessage messageId s)
      | FireTimer k \<Rightarrow> (case takeTimer k s of None \<Rightarrow> ([], s) | Some (cb, s') \<Rightarrow> ([], runCallback cb s'))
      | UpdateOutputValues vals \<Rightarrow> ([], updateOutputValues vals s)
      | SetOutputValues vals \<Rightarrow> ([], s))"

fun run :: "event list \<Rightarrow> uiState \<Rightarrow> jsstring list \<times> uiState" where
  "run [] s = ([], s)"
| "run (ev # evs) s =
     (let (ids, s') = step ev s; (ids', s'') = run evs s' in (ids @ ids', s''))"

definition step_script :: "event \<Rightarrow> uiState \<Rightarrow> jsstring list \<times> uiState" where
  \<comment> \<open>one event on the script's \<open>UIManager\<close>\<close>
  "step_script ev s =
     (case ev of
        AddMessage message type now \<Rightarrow> (let (i, s') = addMessage_script message type now s in ([i], s'))
      | RemoveMessage messageId \<Rightarrow> ([], removeMessage_script messageId s)
      | FireTimer k \<Rightarrow> (case takeTimer k s of None \<Rightarrow> ([], s) | Some (cb, s') \<Rightarrow> ([], runCallback_script cb s'))
      | UpdateOutputValues vals \<Rightarrow> ([], s)
      | SetOutputValues vals \<Rightarrow> ([], setOutputValues_script vals s))"

fun run_script :: "event list \<Rightarrow> uiState \<Rightarrow> jsstring list \<times> uiState" where
  "run_script [] s = ([], s)"
| "run_script (ev # evs) s =
     (let (ids, s') = step_script ev s; (ids', s'') = run_script evs s' in (ids @ ids', s''))"

section \<open>A concrete page\<close>

definition plainMarkup :: htmlPlatform where
  \<comment> \<open>a parser and serialiser for concrete runs: markup reads back as assigned, and text and
      markup are the same string, as they are without tags and character references\<close>
  "plainMarkup = \<lparr>reserialize = (\<lambda>m. m), markupText = (\<lambda>m. m), textMarkup = (\<lambda>t. t)\<rparr>"

definition pageElement :: "jsstring \<Rightarrow> jsstring \<Rightarrow> jsstring \<Rightarrow> jsstring \<Rightarrow> element" where
  "pageElement i tag editable txt =
     \<lparr>elemId = i, tagName = tag, contentEditable = editable, classList = [], content = Text txt,
      fieldValue = [], opacity = [], transition = [], dataEmpty = None, parentNode = Some 0\<rparr>"

definition page0 :: uiState where
  \<comment> \<open>a page with the eight elements the managers use, under a body element (node 0); the
      encryption input holds the text \<open>old\<close>\<close>
  "page0 =
     \<lparr>elements = \<lparr>generateKey = 1, encryptButton = 2, decryptButton = 3, aesKey = 4, iv = 5,
                   encryptInput = 6, decryptInput = 7, report = 8\<rparr>,
      messageConfig = defaultMessageConfig,
      messageCounter = 0,
      store = (\<lambda>n. pageElement [] (js ''DIV'') (js ''inherit'') [])
        (0 := pageElement [] (js ''BODY'') (js ''inherit'') [],
         1 := pageElement (js ''generateKey'') (js ''BUTTON'') (js ''inherit'') [],
         2 := pageElement (js ''encryptButton'') (js ''BUTTON'') (js ''inherit'') [],
         3 := pageElement (js ''decryptButton'') (js ''BUTTON'') (js ''inherit'') [],
         4 := pageElement (js ''aesKey'') (js ''INPUT'') (js ''inherit'') [],
         5 := pageElement (js ''iv'') (js ''INPUT'') (js ''inherit'') [],
         6 := pageElement (js ''encryptInput'') (js ''DIV'') (js ''true'') (js ''old''),
         7 := pageElement (js ''decryptInput'') (js ''DIV'') (js ''true'') [],
         8 := pageElement (js ''report'') (js ''DIV'') (js ''inherit'') []),
      attached = [0, 1, 2, 3, 4, 5, 6, 7, 8],
      fresh = 9,
      timers = [],
      htmlParser = plainMarkup,
      activeElement = None\<rparr>"

definition page1 :: uiState where
  \<comment> \<open>the page after \<open>addMessage('ok', 'success')\<close> on the module manager at time 5\<close>
  "page1 = snd (addMessage (js ''ok'') MsgSuccess 5 page0)"

section \<open>Facts about the hex codec\<close>

lemma unat_hexDigit: "d < 16 \<Longrightarrow> unat (hexDigit d) = (if d < 10 then 48 + d else 87 + d)"
  by (simp add: hexDigit_def unat_of_nat)

lemma isHexChar_hexDigit: "d < 16 \<Longrightarrow> isHexChar (hexDigit d)"
  unfolding isHexChar_def word_le_nat_alt by (simp add: unat_hexDigit)

lemma hexVal_hexDigit: "d < 16 \<Longrightarrow> hexVal (hexDigit d) = d"
  unfolding hexVal_def word_le_nat_alt by (simp add: unat_hexDigit)

lemma hexVal_less: "isHexChar c \<Longrightarrow> hexVal c < 16"
  unfolding hexVal_def isHexChar_def word_le_nat_alt by auto

lemma hexDigit_hexVal: "isHexChar c \<Longrightarrow> hexDigit (hexVal c) = asciiLower c"
proof -
  assume h: "isHexChar c"
  have c: "of_nat (unat c) = c" by simp
  consider "48 \<le> unat c \<and> unat c \<le> 57" | "65 \<le> unat c \<and> unat c \<le> 70" | "97 \<le> unat c \<and> unat c \<le> 102"
    using h unfolding isHexChar_def word_le_nat_alt by auto
  then show ?thesis
  proof cases
    case 1
    then have "hexDigit (hexVal c) = of_nat (unat c)"
      unfolding hexVal_def hexDigit_def word_le_nat_alt by (auto simp: )
    moreover have "asciiLower c = c" using 1 unfolding asciiLower_def word_le_nat_alt by auto
    ultimately show ?thesis by simp
  next
    case 2
    then have "hexDigit (hexVal c) = of_nat (unat c + 32)"
      unfolding hexVal_def hexDigit_def word_le_nat_alt by (auto simp: intro!: arg_cong[where f=of_nat])
    moreover have "asciiLower c = c + 32" using 2 unfolding asciiLower_def word_le_nat_alt by auto
    ultimately show ?thesis by simp
  next
    case 3
    then have "hexDigit (hexVal c) = of_nat (unat c)"
      unfolding hexVal_def hexDigit_def word_le_nat_alt by (auto simp: intro!: arg_cong[where f=of_nat])
    moreover have "asciiLower c = c" using 3 unfolding asciiLower_def word_le_nat_alt by auto
    ultimately show ?thesis by simp
  qed
qed

lemma not_ws_hex: "isHexChar c \<Longrightarrow> \<not> isWhiteSpace c"
  unfolding isHexChar_def isWhiteSpace_def word_le_nat_alt by (auto simp: )

lemma toString16_small: "n < 16 \<Longrightarrow> toString16 n = [hexDigit n]"
  by (subst toString16.simps) simp

lemma toString16_byte: "16 \<le> n \<Longrightarrow> n < 256 \<Longrightarrow> toString16 n = [hexDigit (n div 16), hexDigit (n mod 16)]"
  by (subst toString16.simps) (simp add: toString16_small)

lemma hexDigit_0: "hexDigit 0 = 0x30"
  by (simp add: hexDigit_def)

lemma encode_byte: "padStart 2 0x30 (toString16 (unat (b::byte))) = [hexDigit (unat b div 16), hexDigit (unat b mod 16)]"
proof -
  have lt: "unat b < 256" using unsigned_less[of b, where ?'a=nat] by simp
  show ?thesis
  proof (cases "unat b < 16")
    case True
    then show ?thesis by (simp add: padStart_def toString16_small hexDigit_0)
  next
    case False
    then show ?thesis using lt by (simp add: padStart_def toString16_byte)
  qed
qed

lemma parseInt16_pair: "isHexChar a \<Longrightarrow> isHexChar b \<Longrightarrow> parseInt16 [a, b] = Some (int (16 * hexVal a + hexVal b))"
proof -
  assume a: "isHexChar a" and b: "isHexChar b"
  have nx: "b \<noteq> 0x78" "b \<noteq> 0x58" using b unfolding isHexChar_def word_le_nat_alt by auto
  have ns: "a \<noteq> 0x2D" "a \<noteq> 0x2B" using a unfolding isHexChar_def word_le_nat_alt by auto
  show ?thesis using a b nx ns
    by (simp add: parseInt16_def trimStart_def not_ws_hex Let_def)
qed

lemma byte_roundtrip: "toUint8 (parseInt16 (padStart 2 0x30 (toString16 (unat (b::byte))))) = b"
proof -
  have lt: "unat b < 256" using unsigned_less[of b, where ?'a=nat] by simp
  have d: "unat b div 16 < 16" "unat b mod 16 < 16" using lt by auto
  have "parseInt16 [hexDigit (unat b div 16), hexDigit (unat b mod 16)]
        = Some (int (16 * (unat b div 16) + unat b mod 16))"
    using d by (simp add: parseInt16_pair isHexChar_hexDigit hexVal_hexDigit)
  also have "16 * (unat b div 16) + unat b mod 16 = unat b" by simp
  finally show ?thesis by (simp add: encode_byte toUint8_def)
qed

lemma decodePairs_encode: "decodePairs (uint8ArrayToHex bs) = bs"
proof (induction bs)
  case Nil
  then show ?case by (simp add: uint8ArrayToHex_def)
next
  case (Cons b bs)
  have "uint8ArrayToHex (b # bs) = hexDigit (unat b div 16) # hexDigit (unat b mod 16) # uint8ArrayToHex bs"
    by (simp add: uint8ArrayToHex_def encode_byte)
  moreover have "toUint8 (parseInt16 [hexDigit (unat b div 16), hexDigit (unat b mod 16)]) = b"
    using byte_roundtrip[of b] by (simp add: encode_byte)
  ultimately show ?case using Cons by simp
qed

lemma hex_encode: "list_all isHexChar (uint8ArrayToHex bs)"
proof (induction bs)
  case Nil
  then show ?case by (simp add: uint8ArrayToHex_def)
next
  case (Cons b bs)
  have lt: "unat b < 256" using unsigned_less[of b, where ?'a=nat] by simp
  have d: "unat b div 16 < 16" "unat b mod 16 < 16" using lt by auto
  have "uint8ArrayToHex (b # bs) = hexDigit (unat b div 16) # hexDigit (unat b mod 16) # uint8ArrayToHex bs"
    by (simp add: uint8ArrayToHex_def encode_byte)
  then show ?case using Cons d by (simp add: isHexChar_hexDigit)
qed

lemma length_encode: "length (uint8ArrayToHex bs) = 2 * length bs"
  by (induction bs) (simp_all add: uint8ArrayToHex_def encode_byte)

lemma decodePairs_step: "2 \<le> length s \<Longrightarrow> decodePairs s = toUint8 (parseInt16 (take 2 s)) # decodePairs (drop 2 s)"
  by (cases s rule: decodePairs.cases) auto

lemma hexLoop_decode:
  "even (length h) \<Longrightarrow> length r = length h div 2 \<Longrightarrow> k \<le> length r \<Longrightarrow>
   hexLoop h (2 * k) r = take k r @ decodePairs (drop (2 * k) h)"
proof (induction "length r - k" arbitrary: k r)
  case 0
  then have "k = length r" by simp
  with 0 have "2 * k = length h" by auto
  then show ?case using \<open>k = length r\<close> by (subst hexLoop.simps) simp
next
  case (Suc n)
  then have lt: "k < length r" by simp
  with Suc.prems have lt2: "2 * k < length h" "2 * k + 2 \<le> length h" by auto
  let ?v = "toUint8 (parseInt16 (substr h (2 * k) 2))"
  have "hexLoop h (2 * k) r = hexLoop h (2 * Suc k) (r[k := ?v])"
    using lt2 by (subst hexLoop.simps) simp
  also have "\<dots> = take (Suc k) (r[k := ?v]) @ decodePairs (drop (2 * Suc k) h)"
    using Suc.hyps(2) Suc.prems lt by (intro Suc.hyps(1)) auto
  also have "take (Suc k) (r[k := ?v]) = take k r @ [?v]"
    using lt by (simp add: take_Suc_conv_app_nth)
  also have "decodePairs (drop (2 * k) h) = ?v # decodePairs (drop (2 * Suc k) h)"
    using lt2 by (subst decodePairs_step) (simp_all add: substr_def add.commute)
  then have "(take k r @ [?v]) @ decodePairs (drop (2 * Suc k) h) = take k r @ decodePairs (drop (2 * k) h)"
    by simp
  finally show ?case .
qed

lemma hexLoop_0: "even (length h) \<Longrightarrow> hexLoop h 0 (replicate (length h div 2) 0) = decodePairs h"
  using hexLoop_decode[of h "replicate (length h div 2) 0" 0] by simp

lemma dropWhile_id: "xs = [] \<or> \<not> P (hd xs) \<Longrightarrow> dropWhile P xs = xs"
  by (cases xs) auto

lemma trim_no_ws: "s = [] \<or> (\<not> isWhiteSpace (hd s) \<and> \<not> isWhiteSpace (last s)) \<Longrightarrow> trim s = s"
  by (cases "s = []") (simp_all add: trim_def dropWhile_id hd_rev)

lemma trim_ends: "trim s = [] \<or> (\<not> isWhiteSpace (hd (trim s)) \<and> \<not> isWhiteSpace (last (trim s)))"
proof (cases "trim s = []")
  case True
  then show ?thesis by simp
next
  case False
  let ?t = "dropWhile isWhiteSpace s"
  let ?u = "dropWhile isWhiteSpace (rev ?t)"
  from False have u: "?u \<noteq> []" by (simp add: trim_def)
  have t: "?t \<noteq> []"
  proof
    assume e: "?t = []"
    have "?u = []" unfolding e by simp
    with u show False by simp
  qed
  have l: "\<not> isWhiteSpace (hd ?u)" using u by (rule hd_dropWhile)
  have "\<not> isWhiteSpace (hd ?t)" using t by (rule hd_dropWhile)
  moreover have "hd (rev ?u) = hd ?t"
  proof -
    have "rev ?t = takeWhile isWhiteSpace (rev ?t) @ ?u" by simp
    then have "?t = rev ?u @ rev (takeWhile isWhiteSpace (rev ?t))"
      by (metis rev_append rev_rev_ident)
    then show ?thesis using u by (metis hd_append2 rev_is_Nil_conv)
  qed
  ultimately show ?thesis using l u by (simp add: trim_def last_rev)
qed

lemma trim_trim: "trim (trim s) = trim s"
  using trim_ends[of s] by (rule trim_no_ws)

lemma trim_hex: "list_all isHexChar s \<Longrightarrow> trim s = s"
proof (rule trim_no_ws)
  assume h: "list_all isHexChar s"
  show "s = [] \<or> (\<not> isWhiteSpace (hd s) \<and> \<not> isWhiteSpace (last s))"
  proof (cases "s = []")
    case False
    then have "hd s \<in> set s" "last s \<in> set s" by simp_all
    with h show ?thesis by (auto simp: list_all_iff not_ws_hex)
  qed simp
qed

lemma hexToUint8Array_hex:
  "h \<noteq> [] \<Longrightarrow> list_all isHexChar h \<Longrightarrow> even (length h) \<Longrightarrow> hexToUint8Array h = Inr (decodePairs h)"
  by (simp add: hexToUint8Array_def isValidHex_def trim_hex hexRegex_test_def hexLoop_0 Let_def)

lemma encode_pair:
  assumes a: "isHexChar a" and b: "isHexChar b"
  shows "uint8ArrayToHex [toUint8 (parseInt16 [a, b])] = [asciiLower a, asciiLower b]"
proof -
  let ?n = "16 * hexVal a + hexVal b"
  have lt: "hexVal a < 16" "hexVal b < 16" using a b by (simp_all add: hexVal_less)
  then have n: "?n < 256" by simp
  have u: "unat (toUint8 (parseInt16 [a, b])) = ?n"
    using n by (simp add: parseInt16_pair a b toUint8_def unat_of_nat del: of_nat_add of_nat_mult)
  have "?n div 16 = hexVal a" "?n mod 16 = hexVal b" using lt by simp_all
  then show ?thesis
    by (simp add: uint8ArrayToHex_def encode_byte u hexDigit_hexVal a b)
qed

lemma uint8ArrayToHex_Cons: "uint8ArrayToHex (x # xs) = uint8ArrayToHex [x] @ uint8ArrayToHex xs"
  unfolding uint8ArrayToHex_def by simp

lemma encode_decodePairs:
  "list_all isHexChar h \<Longrightarrow> even (length h) \<Longrightarrow> uint8ArrayToHex (decodePairs h) = map asciiLower h"
proof (induction h rule: decodePairs.induct)
  case (1 a b rest)
  from "1.prems" have ab: "isHexChar a" "isHexChar b" and r: "list_all isHexChar rest" "even (length rest)"
    by simp_all
  have "uint8ArrayToHex (decodePairs rest) = map asciiLower rest" using r by (rule "1.IH")
  moreover have "uint8ArrayToHex [toUint8 (parseInt16 [a, b])] = [asciiLower a, asciiLower b]"
    using ab by (rule encode_pair)
  moreover have "uint8ArrayToHex (decodePairs (a # b # rest)) =
      uint8ArrayToHex [toUint8 (parseInt16 [a, b])] @ uint8ArrayToHex (decodePairs rest)"
    unfolding decodePairs.simps by (rule uint8ArrayToHex_Cons)
  ultimately show ?case by simp
next
  case (2 a)
  then show ?case by simp
next
  case 3
  then show ?case by (simp add: uint8ArrayToHex_def)
qed

lemma js_simps: "js [] = []" "js (c # cs) = of_nat (of_char c) # js cs"
  by (simp_all add: js_def)

lemma trim_example: "trim (js '' abc '') = js ''abc''"
  by (simp add: trim_def js_simps isWhiteSpace_def)

lemma isValidKeySize_iff: "isValidKeySize k \<longleftrightarrow> length k = 32 \<or> length k = 48 \<or> length k = 64"
  by (auto simp: isValidKeySize_def Let_def)

lemma isValidIVSize_iff: "isValidIVSize ivHex n \<longleftrightarrow> length ivHex = 2 * n"
proof -
  have "(real (length ivHex) / 2 = real n) = (real (length ivHex) = real (2 * n))" by auto
  also have "\<dots> = (length ivHex = 2 * n)" by (simp only: of_nat_eq_iff)
  finally show ?thesis by (simp add: isValidIVSize_def Let_def)
qed

lemma isValidHex_hex: "h \<noteq> [] \<Longrightarrow> list_all isHexChar h \<Longrightarrow> isValidHex h"
  by (simp add: isValidHex_def hexRegex_test_def trim_hex)

lemma length_decodePairs: "length (decodePairs h) = (length h + 1) div 2"
  by (induction h rule: decodePairs.induct) simp_all

lemma hexToUint8Array_decode:
  "isValidHex (trim s) \<Longrightarrow>
   hexToUint8Array s = Inr (decodePairs (if even (length (trim s)) then trim s else 0x30 # trim s))"
proof -
  assume v: "isValidHex (trim s)"
  let ?n = "if even (length (trim s)) then trim s else 0x30 # trim s"
  have n: "(if length (trim s) mod 2 = 0 then trim s else 0x30 # trim s) = ?n"
    by (simp add: even_iff_mod_2_eq_zero)
  have "even (length ?n)" by simp
  then have "hexLoop ?n 0 (replicate (length ?n div 2) 0) = decodePairs ?n"
    by (rule hexLoop_0)
  then show ?thesis
    using v unfolding hexToUint8Array_def Let_def n by simp
qed

lemma isValidHex_trim: "isValidHex (trim s) = isValidHex s"
  by (simp add: isValidHex_def trim_trim)

lemma msg_key_iv_neq: "msgInvalidKeySize \<noteq> msgInvalidIVSize n"
  by (simp add: msgInvalidKeySize_def msgInvalidIVSize_def js_simps)

section \<open>Facts about the test vectors\<close>

lemma zeros32_valid: "validateParameters defaultConfig zeros32 zeros32 operation = Inr ()"
proof -
  have n: "zeros32 \<noteq> []" and h: "list_all isHexChar zeros32" and l: "length zeros32 = 32"
    by (simp_all add: zeros32_def js_simps isHexChar_def)
  have v: "isValidHex zeros32" using n h by (rule isValidHex_hex)
  show ?thesis
    using n v l by (simp add: validateParameters_def isValidKeySize_iff isValidIVSize_iff defaultConfig_def)
qed

lemma zeros32_decodes: "hexToUint8Array zeros32 = Inr (decodePairs zeros32)"
  by (rule hexToUint8Array_hex) (simp_all add: zeros32_def js_simps isHexChar_def)

lemma zeros32_isValidHex: "isValidHex zeros32"
  by (rule isValidHex_hex) (simp_all add: zeros32_def js_simps isHexChar_def)

section \<open>Facts about message ids and sessions\<close>

lemma unat_digit: "k < 10 \<Longrightarrow> unat (of_nat (48 + k) :: jschar) = 48 + k"
  by (simp add: unat_of_nat del: of_nat_add)

lemma toString10_digits: "list_all (\<lambda>c. 0x30 \<le> c \<and> c \<le> 0x39) (toString10 n)"
proof (induction n rule: toString10.induct)
  case (1 n)
  have d: "(0x30::jschar) \<le> of_nat (48 + k) \<and> (of_nat (48 + k) :: jschar) \<le> 0x39" if "k < 10" for k
    using that unat_digit[of k] unfolding word_le_nat_alt by simp
  show ?case
  proof (cases "n < 10")
    case True
    then show ?thesis using d[of n] by (subst toString10.simps) simp
  next
    case False
    then show ?thesis using 1 d[of "n mod 10"] by (subst toString10.simps) simp
  qed
qed

lemma toString10_value: "foldl (\<lambda>a c. 10 * a + (unat c - 48)) 0 (toString10 n) = n"
proof (induction n rule: toString10.induct)
  case (1 n)
  have d: "unat (of_nat (48 + k) :: jschar) - 48 = k" if "k < 10" for k
    using that unat_digit[of k] by simp
  show ?case
  proof (cases "n < 10")
    case True
    then show ?thesis using d[of n] by (subst toString10.simps) simp
  next
    case False
    then show ?thesis using 1 d[of "n mod 10"] by (subst toString10.simps) simp
  qed
qed

lemma toString10_inj: "toString10 a = toString10 b \<Longrightarrow> a = b"
  by (metis toString10_value)

lemma id_counter_inj:
  assumes "p @ toString10 a @ sep # x = p @ toString10 b @ sep # y"
    and "\<not> (0x30 \<le> sep \<and> sep \<le> 0x39)"
  shows "a = b"
proof -
  let ?D = "\<lambda>c::jschar. 0x30 \<le> c \<and> c \<le> 0x39"
  have t: "takeWhile ?D (toString10 n @ sep # z) = toString10 n" for n z
    using toString10_digits[of n] assms(2)
    by (simp add: takeWhile_tail takeWhile_eq_all_conv[THEN iffD2] list_all_iff)
  from assms(1) have "toString10 a @ sep # x = toString10 b @ sep # y" by simp
  then have "takeWhile ?D (toString10 a @ sep # x) = takeWhile ?D (toString10 b @ sep # y)" by simp
  then have "toString10 a = toString10 b" by (simp only: t)
  then show ?thesis by (rule toString10_inj)
qed

lemma counter_takeTimer: "takeTimer k s = Some (cb, s') \<Longrightarrow> messageCounter s' = messageCounter s"
  by (auto simp: takeTimer_def split: if_splits)

lemma fst_addMessage:
  "fst (addMessage message type now s) = js ''msg-'' @ toString10 (Suc (messageCounter s)) @ 0x2D # numberToString now"
  by (simp add: addMessage_def Let_def split_def js_simps)

lemma counter_addMessage: "messageCounter (snd (addMessage message type now s)) = Suc (messageCounter s)"
  by (simp add: addMessage_def Let_def split_def createElement_def updateElement_def appendChild_def setTimeout_def)

lemma counter_removeMessage: "messageCounter (removeMessage i s) = messageCounter s"
  by (simp add: removeMessage_def updateElement_def setTimeout_def split: option.split)

lemma counter_runCallback: "messageCounter (runCallback cb s) = messageCounter s"
  by (simp add: runCallback_def updateElement_def removeChild_def counter_removeMessage split: callback.split)

lemma counter_dispatchInput: "messageCounter (dispatchInput n s) = messageCounter s"
proof -
  have "messageCounter (fold (\<lambda>listener st. updateElement n listener st) ls st0) = messageCounter st0"
    for ls st0
    by (induction ls arbitrary: st0) (simp_all add: updateElement_def)
  then show ?thesis by (simp add: dispatchInput_def)
qed

lemma counter_updateOutputValue: "messageCounter (updateOutputValue k v s) = messageCounter s"
  by (simp add: updateOutputValue_def updateElement_def setContentEditableValue_def Let_def
      counter_dispatchInput split: option.split)

lemma counter_updateOutputValues: "messageCounter (updateOutputValues vals s) = messageCounter s"
  unfolding updateOutputValues_def
  by (induction vals arbitrary: s) (simp_all add: counter_updateOutputValue split_def)

lemma step_cases:
  "(\<exists>message type now. ev = AddMessage message type now \<and>
       step ev s = ([fst (addMessage message type now s)], snd (addMessage message type now s))) \<or>
   (fst (step ev s) = [] \<and> messageCounter (snd (step ev s)) = messageCounter s)"
  by (cases ev)
     (auto simp: step_def split_def Let_def counter_removeMessage counter_runCallback counter_updateOutputValues
           dest: counter_takeTimer split: option.split)

lemma run_ids:
  "i \<in> set (fst (run evs s)) \<Longrightarrow>
   \<exists>c now. messageCounter s < c \<and> i = js ''msg-'' @ toString10 c @ 0x2D # numberToString now"
proof (induction evs arbitrary: s)
  case Nil
  then show ?case by simp
next
  case (Cons ev evs)
  let ?s' = "snd (step ev s)"
  from Cons.prems have m: "i \<in> set (fst (step ev s)) \<or> i \<in> set (fst (run evs ?s'))"
    by (auto simp: split_def Let_def)
  from step_cases[of ev s] show ?case
  proof
    assume "\<exists>message type now. ev = AddMessage message type now \<and>
       step ev s = ([fst (addMessage message type now s)], snd (addMessage message type now s))"
    then obtain message type now where
      st: "step ev s = ([fst (addMessage message type now s)], snd (addMessage message type now s))"
      by blast
    then have c: "messageCounter ?s' = Suc (messageCounter s)" by (simp add: counter_addMessage)
    from m show ?thesis
    proof
      assume "i \<in> set (fst (step ev s))"
      then have "i = js ''msg-'' @ toString10 (Suc (messageCounter s)) @ 0x2D # numberToString now"
        using st by (simp add: fst_addMessage)
      then show ?thesis by (intro exI[of _ "Suc (messageCounter s)"] exI[of _ now]) simp
    next
      assume "i \<in> set (fst (run evs ?s'))"
      from Cons.IH[OF this] c show ?thesis by (metis Suc_lessD)
    qed
  next
    assume n: "fst (step ev s) = [] \<and> messageCounter ?s' = messageCounter s"
    with m have "i \<in> set (fst (run evs ?s'))" by simp
    from Cons.IH[OF this] n show ?thesis by simp
  qed
qed

lemma run_distinct: "distinct (fst (run evs s))"
proof (induction evs arbitrary: s)
  case Nil
  then show ?case by simp
next
  case (Cons ev evs)
  let ?s' = "snd (step ev s)"
  have r: "fst (run (ev # evs) s) = fst (step ev s) @ fst (run evs ?s')"
    by (simp add: split_def Let_def)
  from step_cases[of ev s] show ?case
  proof
    assume "\<exists>message type now. ev = AddMessage message type now \<and>
       step ev s = ([fst (addMessage message type now s)], snd (addMessage message type now s))"
    then obtain message type now where
      st: "step ev s = ([fst (addMessage message type now s)], snd (addMessage message type now s))"
      by blast
    then have c: "messageCounter ?s' = Suc (messageCounter s)" by (simp add: counter_addMessage)
    have "fst (addMessage message type now s) \<notin> set (fst (run evs ?s'))"
    proof
      assume "fst (addMessage message type now s) \<in> set (fst (run evs ?s'))"
      from run_ids[OF this] obtain c' now' where
        lt: "messageCounter ?s' < c'" and
        e: "fst (addMessage message type now s) = js ''msg-'' @ toString10 c' @ 0x2D # numberToString now'"
        by blast
      from e have "js ''msg-'' @ toString10 (Suc (messageCounter s)) @ 0x2D # numberToString now
          = js ''msg-'' @ toString10 c' @ 0x2D # numberToString now'"
        by (simp only: fst_addMessage)
      then have "Suc (messageCounter s) = c'"
        by (rule id_counter_inj) simp
      with lt c show False by simp
    qed
    then show ?thesis using Cons.IH[of ?s'] st unfolding r by simp
  next
    assume "fst (step ev s) = [] \<and> messageCounter ?s' = messageCounter s"
    then show ?thesis using Cons.IH[of ?s'] unfolding r by simp
  qed
qed


lemma counter_setElementValue_script: "messageCounter (setElementValue_script n v s) = messageCounter s"
  by (simp add: setElementValue_script_def updateElement_def)

lemma counter_setOutputValues_script: "messageCounter (setOutputValues_script vals s) = messageCounter s"
proof -
  have f: "messageCounter (fold (\<lambda>(key, v) st.
                 if key \<noteq> js ''encryptedOutput'' \<and> key \<noteq> js ''decryptedOutput''
                 then (case elementByKey (elements st) key of
                         Some element \<Rightarrow> setElementValue_script element v st
                       | None \<Rightarrow> st)
                 else st) xs st0) = messageCounter st0" for xs st0
    by (induction xs arbitrary: st0)
       (simp_all add: split_def counter_setElementValue_script split: option.split)
  show ?thesis
    by (simp add: setOutputValues_script_def Let_def f counter_setElementValue_script split: option.split)
qed

lemma fst_addMessage_script:
  "fst (addMessage_script message type now s) = js ''report_'' @ toString10 (Suc (messageCounter s)) @ 0x5F # numberToString now"
  by (simp add: addMessage_script_def generateMessageId_script_def Let_def split_def js_simps)

lemma counter_addMessage_script: "messageCounter (snd (addMessage_script message type now s)) = Suc (messageCounter s)"
  by (simp add: addMessage_script_def generateMessageId_script_def Let_def split_def createElement_def updateElement_def appendChild_def setTimeout_def)

lemma counter_removeMessage_script: "messageCounter (removeMessage_script i s) = messageCounter s"
  by (simp add: removeMessage_script_def updateElement_def setTimeout_def split: option.split)

lemma counter_runCallback_script: "messageCounter (runCallback_script cb s) = messageCounter s"
  by (simp add: runCallback_script_def updateElement_def removeChild_def counter_removeMessage_script split: callback.split)

lemma step_cases_script:
  "(\<exists>message type now. ev = AddMessage message type now \<and>
       step_script ev s = ([fst (addMessage_script message type now s)], snd (addMessage_script message type now s))) \<or>
   (fst (step_script ev s) = [] \<and> messageCounter (snd (step_script ev s)) = messageCounter s)"
  by (cases ev)
     (auto simp: step_script_def split_def Let_def counter_removeMessage_script counter_runCallback_script counter_setOutputValues_script
           dest: counter_takeTimer split: option.split)

lemma run_ids_script:
  "i \<in> set (fst (run_script evs s)) \<Longrightarrow>
   \<exists>c now. messageCounter s < c \<and> i = js ''report_'' @ toString10 c @ 0x5F # numberToString now"
proof (induction evs arbitrary: s)
  case Nil
  then show ?case by simp
next
  case (Cons ev evs)
  let ?s' = "snd (step_script ev s)"
  from Cons.prems have m: "i \<in> set (fst (step_script ev s)) \<or> i \<in> set (fst (run_script evs ?s'))"
    by (auto simp: split_def Let_def)
  from step_cases_script[of ev s] show ?case
  proof
    assume "\<exists>message type now. ev = AddMessage message type now \<and>
       step_script ev s = ([fst (addMessage_script message type now s)], snd (addMessage_script message type now s))"
    then obtain message type now where
      st: "step_script ev s = ([fst (addMessage_script message type now s)], snd (addMessage_script message type now s))"
      by blast
    then have c: "messageCounter ?s' = Suc (messageCounter s)" by (simp add: counter_addMessage_script)
    from m show ?thesis
    proof
      assume "i \<in> set (fst (step_script ev s))"
      then have "i = js ''report_'' @ toString10 (Suc (messageCounter s)) @ 0x5F # numberToString now"
        using st by (simp add: fst_addMessage_script)
      then show ?thesis by (intro exI[of _ "Suc (messageCounter s)"] exI[of _ now]) simp
    next
      assume "i \<in> set (fst (run_script evs ?s'))"
      from Cons.IH[OF this] c show ?thesis by (metis Suc_lessD)
    qed
  next
    assume n: "fst (step_script ev s) = [] \<and> messageCounter ?s' = messageCounter s"
    with m have "i \<in> set (fst (run_script evs ?s'))" by simp
    from Cons.IH[OF this] n show ?thesis by simp
  qed
qed

lemma run_distinct_script: "distinct (fst (run_script evs s))"
proof (induction evs arbitrary: s)
  case Nil
  then show ?case by simp
next
  case (Cons ev evs)
  let ?s' = "snd (step_script ev s)"
  have r: "fst (run_script (ev # evs) s) = fst (step_script ev s) @ fst (run_script evs ?s')"
    by (simp add: split_def Let_def)
  from step_cases_script[of ev s] show ?case
  proof
    assume "\<exists>message type now. ev = AddMessage message type now \<and>
       step_script ev s = ([fst (addMessage_script message type now s)], snd (addMessage_script message type now s))"
    then obtain message type now where
      st: "step_script ev s = ([fst (addMessage_script message type now s)], snd (addMessage_script message type now s))"
      by blast
    then have c: "messageCounter ?s' = Suc (messageCounter s)" by (simp add: counter_addMessage_script)
    have "fst (addMessage_script message type now s) \<notin> set (fst (run_script evs ?s'))"
    proof
      assume "fst (addMessage_script message type now s) \<in> set (fst (run_script evs ?s'))"
      from run_ids_script[OF this] obtain c' now' where
        lt: "messageCounter ?s' < c'" and
        e: "fst (addMessage_script message type now s) = js ''report_'' @ toString10 c' @ 0x5F # numberToString now'"
        by blast
      from e have "js ''report_'' @ toString10 (Suc (messageCounter s)) @ 0x5F # numberToString now
          = js ''report_'' @ toString10 c' @ 0x5F # numberToString now'"
        by (simp only: fst_addMessage_script)
      then have "Suc (messageCounter s) = c'"
        by (rule id_counter_inj) simp
      with lt c show False by simp
    qed
    then show ?thesis using Cons.IH[of ?s'] st unfolding r by simp
  next
    assume "fst (step_script ev s) = [] \<and> messageCounter ?s' = messageCounter s"
    then show ?thesis using Cons.IH[of ?s'] unfolding r by simp
  qed
qed

lemma toString10_digit: "n < 10 \<Longrightarrow> toString10 n = [of_nat (48 + n)]"
  by (subst toString10.simps) simp

lemma ids_page0:
  "fst (run [AddMessage (js ''ok'') MsgSuccess 5, AddMessage (js ''ok'') MsgSuccess 5] page0)
     = [js ''msg-1-5'', js ''msg-2-5'']"
  by (simp add: step_def split_def Let_def fst_addMessage counter_addMessage page0_def
      toString10_digit numberToString_def js_simps)

lemma timers_addMessage_script:
  "timers (snd (addMessage_script message type now s)) =
     timers s @ [(10, FadeIn (fresh s)),
                 (baseDuration (messageConfig s) + int (length message) * durationFactor (messageConfig s),
                  AutoRemove (fst (addMessage_script message type now s)))]"
  by (simp add: addMessage_script_def generateMessageId_script_def Let_def split_def createElement_def
      updateElement_def appendChild_def setTimeout_def calculateMessageDuration_script_def)

lemma filter_unique:
  assumes "length (filter P xs) \<le> 1" and "n \<in> set xs" and "P n" and "m \<in> set xs" and "P m"
  shows "m = n"
proof -
  from assms have nm: "n \<in> set (filter P xs)" "m \<in> set (filter P xs)" by simp_all
  from assms(1) have "filter P xs = [] \<or> (\<exists>x. filter P xs = [x])"
    by (cases "filter P xs") (auto simp: length_Suc_conv)
  then show ?thesis
  proof
    assume "filter P xs = []"
    with nm(1) show ?thesis by (simp only: set_empty2 empty_iff list.set)
  next
    assume "\<exists>x. filter P xs = [x]"
    then obtain x where "filter P xs = [x]" ..
    with nm have "n = x" "m = x" by (simp_all only: list.set singleton_iff)
    then show ?thesis by simp
  qed
qed

lemma removeMessage_absent: "getElementById s messageId = None \<Longrightarrow> removeMessage messageId s = s"
  by (simp add: removeMessage_def)

lemma removeMessage_script_absent: "getElementById s messageId = None \<Longrightarrow> removeMessage_script messageId s = s"
  by (simp add: removeMessage_script_def)

lemma takeTimer_last:
  "takeTimer (length (timers s)) (setTimeout cb d s) = Some (cb, s)"
  by (simp add: takeTimer_def setTimeout_def)

lemma takeTimer_none: "takeTimer (length (timers s)) s = None"
  by (simp add: takeTimer_def)

lemma detach_absent:
  assumes wf: "list_all (\<lambda>n. parentNode (store s n) \<noteq> None) (attached s)"
    and uniq: "length (filter (\<lambda>n. elemId (store s n) = messageId) (attached s)) \<le> 1"
    and found: "getElementById s messageId = Some n"
    and keep: "parentNode (f (store s n)) = parentNode (store s n)" "elemId (f (store s n)) = elemId (store s n)"
  shows "getElementById (removeChild n (updateElement n f s)) messageId = None"
proof -
  from found have n: "n \<in> set (attached s)" "elemId (store s n) = messageId"
    by (auto simp: getElementById_def find_Some_iff)
  have "\<not> (m \<in> set (removeAll n (attached s)) \<and> elemId (store s m) = messageId)" for m
  proof
    assume a: "m \<in> set (removeAll n (attached s)) \<and> elemId (store s m) = messageId"
    then have "m \<in> set (attached s)" "m \<noteq> n" by auto
    moreover have "m = n"
      using uniq n(1) n(2) \<open>m \<in> set (attached s)\<close> a
      by (intro filter_unique[where P="\<lambda>n. elemId (store s n) = messageId" and xs="attached s"]) simp_all
    ultimately show False by simp
  qed
  then show ?thesis
    by (auto simp: getElementById_def removeChild_def updateElement_def find_None_iff)
qed

lemma remove_fire_module:
  assumes wf: "list_all (\<lambda>n. parentNode (store s n) \<noteq> None) (attached s)"
    and uniq: "length (filter (\<lambda>n. elemId (store s n) = messageId) (attached s)) \<le> 1"
  shows "getElementById (snd (step (FireTimer (length (timers s))) (removeMessage messageId s))) messageId = None"
proof (cases "getElementById s messageId")
  case None
  then show ?thesis by (simp add: removeMessage_def step_def takeTimer_none)
next
  case (Some n)
  let ?f = "classList_add (js ''fade-out'')"
  let ?u = "updateElement n ?f s"
  have k: "parentNode (?f (store s n)) = parentNode (store s n)" "elemId (?f (store s n)) = elemId (store s n)"
    by (simp_all add: classList_add_def)
  from Some have n: "n \<in> set (attached s)" by (auto simp: getElementById_def find_Some_iff)
  with wf have p: "parentNode (store s n) \<noteq> None" by (simp add: list_all_iff)
  have t: "timers ?u = timers s" by (simp add: updateElement_def)
  have r: "removeMessage messageId s = setTimeout (Detach n) (fadeTimeout (messageConfig s)) ?u"
    using Some by (simp add: removeMessage_def)
  have "takeTimer (length (timers s)) (removeMessage messageId s) = Some (Detach n, ?u)"
    unfolding r using takeTimer_last[of ?u "Detach n" "fadeTimeout (messageConfig s)"] by (simp only: t)
  then have "snd (step (FireTimer (length (timers s))) (removeMessage messageId s)) = removeChild n ?u"
    using p k by (simp add: step_def runCallback_def updateElement_def)
  moreover have "getElementById (removeChild n ?u) messageId = None"
    using wf uniq Some k by (rule detach_absent[where f="?f"])
  ultimately show ?thesis by simp
qed

lemma remove_fire_script:
  assumes wf: "list_all (\<lambda>n. parentNode (store s n) \<noteq> None) (attached s)"
    and uniq: "length (filter (\<lambda>n. elemId (store s n) = messageId) (attached s)) \<le> 1"
  shows "getElementById (snd (step_script (FireTimer (length (timers s))) (removeMessage_script messageId s))) messageId = None"
proof (cases "getElementById s messageId")
  case None
  then show ?thesis by (simp add: removeMessage_script_def step_script_def takeTimer_none)
next
  case (Some n)
  let ?f = "\<lambda>e. e\<lparr>opacity := js ''0''\<rparr>"
  let ?u = "updateElement n ?f s"
  have k: "parentNode (?f (store s n)) = parentNode (store s n)" "elemId (?f (store s n)) = elemId (store s n)"
    by simp_all
  from Some have n: "n \<in> set (attached s)" by (auto simp: getElementById_def find_Some_iff)
  with wf have p: "parentNode (store s n) \<noteq> None" by (simp add: list_all_iff)
  have t: "timers ?u = timers s" by (simp add: updateElement_def)
  have r: "removeMessage_script messageId s = setTimeout (Detach n) (fadeTimeout (messageConfig s)) ?u"
    using Some by (simp add: removeMessage_script_def)
  have "takeTimer (length (timers s)) (removeMessage_script messageId s) = Some (Detach n, ?u)"
    unfolding r using takeTimer_last[of ?u "Detach n" "fadeTimeout (messageConfig s)"] by (simp only: t)
  then have "snd (step_script (FireTimer (length (timers s))) (removeMessage_script messageId s)) = removeChild n ?u"
    using p k by (simp add: step_script_def runCallback_script_def updateElement_def)
  moreover have "getElementById (removeChild n ?u) messageId = None"
    using wf uniq Some k by (rule detach_absent[where f="?f"])
  ultimately show ?thesis by simp
qed

lemma page1_attached: "attached page1 = [0, 1, 2, 3, 4, 5, 6, 7, 8, 9]"
  by (simp add: page1_def addMessage_def Let_def split_def createElement_def updateElement_def
      appendChild_def setTimeout_def page0_def)

lemma page1_store:
  "store page1 = (store page0)(9 :=
     \<lparr>elemId = js ''msg-1-5'', tagName = js ''DIV'', contentEditable = js ''inherit'',
      classList = [js ''message'', js ''success''], content = Text (js ''ok''), fieldValue = [],
      opacity = [], transition = [], dataEmpty = None, parentNode = Some 8\<rparr>)"
  by (simp add: page1_def addMessage_def Let_def split_def createElement_def updateElement_def
      appendChild_def setTimeout_def page0_def toString10_digit numberToString_def js_simps
      typeName_def toUpperCase_def)

lemma page1_wf: "list_all (\<lambda>n. parentNode (store page1 n) \<noteq> None) (attached page1)"
  by (simp add: page1_attached page1_store page0_def pageElement_def)

lemma page1_unique:
  "filter (\<lambda>n. elemId (store page1 n) = js ''msg-1-5'') (attached page1) = [9]"
  by (simp add: page1_attached page1_store page0_def pageElement_def js_simps)

lemma page1_found: "getElementById page1 (js ''msg-1-5'') = Some 9"
  by (simp add: getElementById_def page1_attached page1_store page0_def pageElement_def js_simps)

section \<open>Facts about writing results\<close>

lemma setOutputValues_script_encrypted:
  "setOutputValues_script [(js ''encryptedOutput'', v)] s =
     (if v \<noteq> [] then setElementValue_script (decryptInput (elements s)) v s else s)"
  by (simp add: setOutputValues_script_def Let_def js_simps)

lemma setOutputValues_script_decrypted:
  "setOutputValues_script [(js ''decryptedOutput'', v)] s =
     (if v \<noteq> [] then setElementValue_script (encryptInput (elements s)) v s else s)"
  by (simp add: setOutputValues_script_def Let_def js_simps)

lemma setElementValue_script_eq:
  "setElementValue_script n v s =
     s\<lparr>store := (store s)(n :=
          (if toLowerCase (tagName (store s n)) = js ''div'' \<and> contentEditable (store s n) = js ''true''
           then (store s n)\<lparr>content := Text v\<rparr> else (store s n)\<lparr>fieldValue := v\<rparr>))\<rparr>"
  by (simp add: setElementValue_script_def updateElement_def)

lemma updateOutputValues_encrypted:
  "updateOutputValues [(js ''encryptedOutput'', Some v)] s =
     setContentEditableValue (decryptInput (elements s)) v s"
  by (simp add: updateOutputValues_def updateOutputValue_def js_simps)

lemma updateOutputValues_decrypted:
  "updateOutputValues [(js ''decryptedOutput'', Some v)] s =
     setContentEditableValue (encryptInput (elements s)) v s"
  by (simp add: updateOutputValues_def updateOutputValue_def js_simps)

lemma fold_updateElement:
  "fold (\<lambda>listener st. updateElement n listener st) ls s =
     s\<lparr>store := (store s)(n := fold (\<lambda>listener e. listener e) ls (store s n))\<rparr>"
  by (induction ls arbitrary: s) (simp_all add: updateElement_def)

lemma inputListeners_updateElement: "inputListeners (updateElement n f s) m = inputListeners s m"
  by (simp add: inputListeners_def updateElement_def)

lemma setContentEditableValue_eq:
  "setContentEditableValue n v s =
     s\<lparr>store := (store s)(n :=
          fold (\<lambda>listener e. listener e) (inputListeners s n)
            (set_innerHTML (htmlParser s) (replaceNewlines v) (store s n)))\<rparr>"
  by (simp add: setContentEditableValue_def dispatchInput_def fold_updateElement
      inputListeners_updateElement Let_def)
     (simp add: updateElement_def)

lemma setContentEditableValue_frame:
  "m \<noteq> n \<Longrightarrow> store (setContentEditableValue n v s) m = store s m"
  by (simp add: setContentEditableValue_eq)

lemma canonicalize_lt: "canonicalize x = canonicalize 0x3C \<longleftrightarrow> x = 0x3C"
proof -
  have c: "canonicalize 0x3C = (0x3C::jschar)" by (simp add: canonicalize_def)
  show ?thesis
  proof (cases "0x61 \<le> x \<and> x \<le> 0x7A")
    case True
    then have r: "97 \<le> unat x \<and> unat x \<le> 122" unfolding word_le_nat_alt by simp
    then have "unat (x - 0x20) = unat x - 32"
      by (simp add: unat_sub word_le_nat_alt)
    with r have "unat (x - 0x20) \<noteq> 60" "unat x \<noteq> 60" by arith+
    then have "unat (x - 0x20) \<noteq> unat (0x3C::jschar)" "unat x \<noteq> unat (0x3C::jschar)" by simp_all
    then have "x - 0x20 \<noteq> 0x3C" "x \<noteq> 0x3C" by auto
    then show ?thesis using True by (simp add: canonicalize_def)
  next
    case False
    then show ?thesis by (auto simp: canonicalize_def)
  qed
qed

lemma matchR_lt_fail:
  "s = [] \<or> hd s \<noteq> 0x3C \<Longrightarrow> matchR (Seq (Lit 0x3C) r) s = []"
  by (cases s) (auto simp: matchR.simps canonicalize_lt)

lemma matchR_Seq_fail: "matchR a s = [] \<Longrightarrow> matchR (Seq a b) s = []"
  by (simp add: matchR.simps)

lemma replaceAll_no_match:
  "(\<And>t. t = [] \<or> hd t \<noteq> 0x3C \<Longrightarrow> matchR r t = []) \<Longrightarrow> 0x3C \<notin> set s \<Longrightarrow> replaceAll r rep s = s"
proof (induction s)
  case Nil
  then show ?case by (subst replaceAll.simps) simp
next
  case (Cons c cs)
  then have "matchR r (c # cs) = []" by simp
  moreover have "replaceAll r rep cs = cs" using Cons by simp
  ultimately show ?case by (subst replaceAll.simps) simp
qed

lemma rx_lt:
  assumes "t = [] \<or> hd t \<noteq> 0x3C"
  shows "matchR rxDivBr t = []" "matchR rxDivOpen t = []" "matchR rxDivClose t = []"
    "matchR rxOtherTag t = []" "matchR rxBr t = []" "matchR rxBrRun t = []"
proof -
  show "matchR rxDivBr t = []" "matchR rxDivOpen t = []" "matchR rxDivClose t = []"
    "matchR rxOtherTag t = []"
    using assms
    by (simp_all add: rxDivBr_def rxDivOpen_def rxDivClose_def rxOtherTag_def seqs_def lits_def
        js_simps matchR_lt_fail)
  show b: "matchR rxBr t = []"
    using assms by (simp add: rxBr_def seqs_def lits_def js_simps matchR_lt_fail)
  show "matchR rxBrRun t = []"
    using b by (simp add: rxBrRun_def seqs_def matchR_Seq_fail)
qed

lemma normalizeHTML_plain: "0x3C \<notin> set m \<Longrightarrow> normalizeHTML m = m"
  by (simp add: normalizeHTML_def Let_def replaceAll_no_match rx_lt)

lemma replaceNewlines_plain: "0x0A \<notin> set v \<Longrightarrow> replaceNewlines v = v"
  by (induction v) auto

lemma content_checkPlaceholder: "content (checkPlaceholder H f e) = content e"
  by (simp add: checkPlaceholder_def classList_toggle_def classList_add_def Let_def)

lemma content_normalize:
  "content e = Markup m \<Longrightarrow> normalizeHTML m = m \<Longrightarrow> content (normalizeContentEditableHTML H e) = Markup m"
  by (simp add: normalizeContentEditableHTML_def innerHTML_def Let_def)

lemma content_listeners:
  assumes "content e = Markup m" and "normalizeHTML m = m"
  shows "content (fold (\<lambda>listener e. listener e) (inputListeners s n) e) = Markup m"
  using assms
  by (simp add: inputListeners_def content_checkPlaceholder content_normalize)

lemma hex_plain: "list_all isHexChar v \<Longrightarrow> 0x3C \<notin> set v \<and> 0x0A \<notin> set v"
  unfolding list_all_iff isHexChar_def word_le_nat_alt by auto

lemma module_write_content:
  assumes "0x3C \<notin> set v" and "0x0A \<notin> set v" and "reserialize (htmlParser s) v = v"
  shows "content (store (setContentEditableValue n v s) n) = Markup v"
proof -
  have "content (set_innerHTML (htmlParser s) (replaceNewlines v) (store s n)) = Markup v"
    using assms by (simp add: set_innerHTML_def replaceNewlines_plain)
  moreover have "normalizeHTML v = v" using assms(1) by (rule normalizeHTML_plain)
  ultimately show ?thesis by (simp add: setContentEditableValue_eq content_listeners)
qed

lemma setOutputValues_script_cross_wiring:
  assumes "v \<noteq> []"
  shows "setOutputValues_script [(js ''encryptedOutput'', v)] s =
           s\<lparr>store := (store s)(decryptInput (elements s) :=
             (if toLowerCase (tagName (store s (decryptInput (elements s)))) = js ''div''
                 \<and> contentEditable (store s (decryptInput (elements s))) = js ''true''
              then (store s (decryptInput (elements s)))\<lparr>content := Text v\<rparr>
              else (store s (decryptInput (elements s)))\<lparr>fieldValue := v\<rparr>))\<rparr>"
    and "setOutputValues_script [(js ''decryptedOutput'', v)] s =
           s\<lparr>store := (store s)(encryptInput (elements s) :=
             (if toLowerCase (tagName (store s (encryptInput (elements s)))) = js ''div''
                 \<and> contentEditable (store s (encryptInput (elements s))) = js ''true''
              then (store s (encryptInput (elements s)))\<lparr>content := Text v\<rparr>
              else (store s (encryptInput (elements s)))\<lparr>fieldValue := v\<rparr>))\<rparr>"
  using assms
  by (simp_all add: setOutputValues_script_encrypted setOutputValues_script_decrypted
      setElementValue_script_eq)

lemma updateOutputValues_cross_wiring:
  "updateOutputValues [(js ''encryptedOutput'', Some v)] s =
     s\<lparr>store := (store s)(decryptInput (elements s) :=
          fold (\<lambda>listener e. listener e) (inputListeners s (decryptInput (elements s)))
            (set_innerHTML (htmlParser s) (replaceNewlines v) (store s (decryptInput (elements s)))))\<rparr>"
  "updateOutputValues [(js ''decryptedOutput'', Some v)] s =
     s\<lparr>store := (store s)(encryptInput (elements s) :=
          fold (\<lambda>listener e. listener e) (inputListeners s (encryptInput (elements s)))
            (set_innerHTML (htmlParser s) (replaceNewlines v) (store s (encryptInput (elements s)))))\<rparr>"
  by (simp_all add: updateOutputValues_encrypted updateOutputValues_decrypted setContentEditableValue_eq)

lemma output_frame:
  "m \<noteq> decryptInput (elements s) \<Longrightarrow>
     store (setOutputValues_script [(js ''encryptedOutput'', v)] s) m = store s m \<and>
     store (updateOutputValues [(js ''encryptedOutput'', Some v)] s) m = store s m"
  "m \<noteq> encryptInput (elements s) \<Longrightarrow>
     store (setOutputValues_script [(js ''decryptedOutput'', v)] s) m = store s m \<and>
     store (updateOutputValues [(js ''decryptedOutput'', Some v)] s) m = store s m"
  by (simp_all add: setOutputValues_script_encrypted setOutputValues_script_decrypted
      setElementValue_script_eq updateOutputValues_encrypted updateOutputValues_decrypted
      setContentEditableValue_eq)

lemma updateOutputValues_hex_result:
  assumes "list_all isHexChar v" and "reserialize (htmlParser s) v = v"
  shows "content (store (updateOutputValues [(js ''encryptedOutput'', Some v)] s) (decryptInput (elements s)))
           = Markup v"
  using assms hex_plain[of v]
  by (simp add: updateOutputValues_encrypted module_write_content)

lemma normalizeHTML_three_breaks: "normalizeHTML (js ''<br><br><br>'') = js ''<br><br>''"
  by code_simp

lemma normalizeHTML_other_tags: "normalizeHTML (js ''<b>x</b>'') = js ''x''"
  by code_simp

lemma normalizeHTML_div: "normalizeHTML (js ''a<DIV id=q><BR/></div>b<div>c</div>'') = js ''a<br>b<br>c''"
  by code_simp

lemma updateOutputValues_page0:
  "store (updateOutputValues [(js ''decryptedOutput'', Some (js ''a'' @ [0x0A, 0x0A, 0x0A] @ js ''<b>x</b>''))] page0)
     (encryptInput (elements page0))
   = (store page0 (encryptInput (elements page0)))\<lparr>content := Markup (js ''a<br><br>x''), dataEmpty := None\<rparr>"
  by code_simp

lemma updateOutputValues_page0_empty:
  "store (updateOutputValues [(js ''decryptedOutput'', Some [])] page0) (encryptInput (elements page0))
   = (store page0 (encryptInput (elements page0)))
       \<lparr>classList := [js ''empty''], content := Markup [], dataEmpty := Some (js ''true'')\<rparr>"
  by code_simp

section \<open>The configuration of the script's manager is never assigned\<close>

lemma config_takeTimer: "takeTimer k s = Some (cb, s') \<Longrightarrow> messageConfig s' = messageConfig s"
  by (auto simp: takeTimer_def split: if_splits)

lemma config_setElementValue_script: "messageConfig (setElementValue_script n v s) = messageConfig s"
  by (simp add: setElementValue_script_def updateElement_def)

lemma config_setOutputValues_script: "messageConfig (setOutputValues_script vals s) = messageConfig s"
proof -
  have f: "messageConfig (fold (\<lambda>(key, v) st.
                 if key \<noteq> js ''encryptedOutput'' \<and> key \<noteq> js ''decryptedOutput''
                 then (case elementByKey (elements st) key of
                         Some element \<Rightarrow> setElementValue_script element v st
                       | None \<Rightarrow> st)
                 else st) xs st0) = messageConfig st0" for xs st0
    by (induction xs arbitrary: st0)
       (simp_all add: split_def config_setElementValue_script split: option.split)
  show ?thesis
    by (simp add: setOutputValues_script_def Let_def f config_setElementValue_script split: option.split)
qed

lemma config_addMessage_script: "messageConfig (snd (addMessage_script message type now s)) = messageConfig s"
  by (simp add: addMessage_script_def generateMessageId_script_def Let_def split_def createElement_def updateElement_def appendChild_def setTimeout_def)

lemma config_removeMessage_script: "messageConfig (removeMessage_script i s) = messageConfig s"
  by (simp add: removeMessage_script_def updateElement_def setTimeout_def split: option.split)

lemma config_runCallback_script: "messageConfig (runCallback_script cb s) = messageConfig s"
  by (simp add: runCallback_script_def updateElement_def removeChild_def config_removeMessage_script split: callback.split)

lemma config_step_script: "messageConfig (snd (step_script ev s)) = messageConfig s"
  by (cases ev)
     (auto simp: step_script_def split_def Let_def config_removeMessage_script config_runCallback_script
           config_setOutputValues_script config_addMessage_script
           dest: config_takeTimer split: option.split)

lemma config_run_script: "messageConfig (snd (run_script evs s)) = messageConfig s"
  by (induction evs arbitrary: s) (simp_all add: split_def Let_def config_step_script)

section \<open>Claims about the hex codec and the parameter validator\<close>

text \<open>
  Claim C1 (amended). For every non-empty byte array \<open>b\<close>, \<open>hexToUint8Array(uint8ArrayToHex(b))\<close>
  returns \<open>b\<close>; and for every non-empty string \<open>h\<close> of even length made only of hex digits,
  \<open>hexToUint8Array(h)\<close> returns one byte per pair of digits and \<open>uint8ArrayToHex\<close> of it is
  \<open>h\<close> with every letter in lowercase.
\<close>

theorem hex_roundtrip_nonempty:
  "(b \<noteq> [] \<longrightarrow> hexToUint8Array (uint8ArrayToHex b) = Inr b) \<and>
   (h \<noteq> [] \<and> list_all isHexChar h \<and> even (length h) \<longrightarrow>
      hexToUint8Array h = Inr (decodePairs h) \<and> uint8ArrayToHex (decodePairs h) = map asciiLower h)"
proof (intro conjI impI)
  assume b: "b \<noteq> []"
  have "hexToUint8Array (uint8ArrayToHex b) = Inr (decodePairs (uint8ArrayToHex b))"
  proof (rule hexToUint8Array_hex)
    have "length (uint8ArrayToHex b) \<noteq> 0" using b by (simp add: length_encode)
    then show "uint8ArrayToHex b \<noteq> []" by simp
  qed (simp_all add: hex_encode length_encode)
  then show "hexToUint8Array (uint8ArrayToHex b) = Inr b" by (simp add: decodePairs_encode)
next
  assume h: "h \<noteq> [] \<and> list_all isHexChar h \<and> even (length h)"
  then show "hexToUint8Array h = Inr (decodePairs h)" by (simp add: hexToUint8Array_hex)
  from h show "uint8ArrayToHex (decodePairs h) = map asciiLower h" by (simp add: encode_decodePairs)
qed

theorem hex_roundtrip_nonempty_witness:
  "[0xAB, 0x01 :: byte] \<noteq> [] \<and> hexToUint8Array (uint8ArrayToHex [0xAB, 0x01]) = Inr [0xAB, 0x01] \<and>
   js ''0aBc'' \<noteq> [] \<and> list_all isHexChar (js ''0aBc'') \<and> even (length (js ''0aBc'')) \<and>
   hexToUint8Array (js ''0aBc'') = Inr (decodePairs (js ''0aBc'')) \<and>
   uint8ArrayToHex (decodePairs (js ''0aBc'')) = js ''0abc''"
  using hex_roundtrip_nonempty[of "[0xAB, 0x01]" "js ''0aBc''"]
  by (simp add: js_simps isHexChar_def asciiLower_def)

text \<open>
  Claim C1 as stated fails at the empty byte array: its hex form is the empty string, which
  \<open>isValidHex\<close> refuses (the pattern asks for at least one digit), so \<open>hexToUint8Array\<close> throws.
\<close>

theorem hex_roundtrip_empty_counterexample:
  "hexToUint8Array (uint8ArrayToHex []) = Inl msgInvalidHex \<and> hexToUint8Array (uint8ArrayToHex []) \<noteq> Inr []"
  by (simp add: hexToUint8Array_def uint8ArrayToHex_def isValidHex_def hexRegex_test_def trim_def)

text \<open>
  Claim C4 (amended). \<open>isValidHex\<close> of dist/utils/CryptoUtils.js is true if and only if the
  whitespace-trimmed string is non-empty and each of its characters is in \<open>[0-9A-Fa-f]\<close>; the
  static \<open>isValidHex\<close> of the single-file script is true if and only if every character of the
  string as given is in that alphabet and its length is even. For the empty string the first
  returns false and the second returns true.
\<close>

theorem isValidHex_iff:
  "(isValidHex hex \<longleftrightarrow> trim hex \<noteq> [] \<and> list_all isHexChar (trim hex)) \<and>
   (isValidHex_static hex \<longleftrightarrow> list_all isHexChar hex \<and> even (length hex)) \<and>
   \<not> isValidHex [] \<and> isValidHex_static []"
  by (simp add: isValidHex_def hexRegex_test_def isValidHex_static_def trim_def even_iff_mod_2_eq_zero)

text \<open>
  Claim C4 as stated fails at the empty string: all of its (no) characters are hex digits, and
  \<open>isValidHex\<close> returns false.
\<close>

theorem isValidHex_empty_counterexample:
  "list_all isHexChar (trim []) \<and> \<not> isValidHex []"
  by (simp add: isValidHex_def hexRegex_test_def trim_def)

text \<open>
  Claim C10. \<open>hexToUint8Array(s)\<close> equals \<open>hexToUint8Array(trim(s))\<close> for every string
  \<open>s\<close>; and when the trimmed string is valid hex, the call succeeds with the bytes of the
  trimmed string, read in pairs after a \<open>0\<close> is put in front of an odd-length one.
\<close>

theorem hexToUint8Array_trims:
  "hexToUint8Array s = hexToUint8Array (trim s) \<and>
   (isValidHex (trim s) \<longrightarrow>
      hexToUint8Array s = Inr (decodePairs (if even (length (trim s)) then trim s else 0x30 # trim s)))"
proof (intro conjI impI)
  show "hexToUint8Array s = hexToUint8Array (trim s)"
    by (simp add: hexToUint8Array_def trim_trim)
next
  assume "isValidHex (trim s)"
  then show "hexToUint8Array s = Inr (decodePairs (if even (length (trim s)) then trim s else 0x30 # trim s))"
    by (rule hexToUint8Array_decode)
qed

theorem hexToUint8Array_trims_witness:
  "isValidHex (trim (js '' abc '')) \<and>
   hexToUint8Array (js '' abc '') = hexToUint8Array (trim (js '' abc '')) \<and>
   hexToUint8Array (js '' abc '') = Inr [0x0A, 0xBC]"
proof -
  have t: "trim (js '' abc '') = js ''abc''" by (rule trim_example)
  have v: "isValidHex (js ''abc'')"
    by (simp add: isValidHex_def hexRegex_test_def trim_def js_simps isWhiteSpace_def isHexChar_def)
  have d: "decodePairs (js ''0abc'') = [0x0A, 0xBC]"
    by (simp add: js_simps parseInt16_def trimStart_def isWhiteSpace_def isHexChar_def hexVal_def toUint8_def Let_def)
  have p: "0x30 # js ''abc'' = js ''0abc''" "\<not> even (length (js ''abc''))"
    by (simp_all add: js_simps)
  note w = hexToUint8Array_trims[of "js '' abc ''", unfolded t]
  have "hexToUint8Array (js '' abc '') = hexToUint8Array (js ''abc'')"
    using w by (rule conjunct1)
  moreover have "isValidHex (js ''abc'') \<longrightarrow> hexToUint8Array (js '' abc '') =
      Inr (decodePairs (if even (length (js ''abc'')) then js ''abc'' else 0x30 # js ''abc''))"
    using w by (rule conjunct2)
  then have "hexToUint8Array (js '' abc '') =
      Inr (decodePairs (if even (length (js ''abc'')) then js ''abc'' else 0x30 # js ''abc''))"
    using v by (rule mp)
  then have "hexToUint8Array (js '' abc '') = Inr (decodePairs (js ''0abc''))"
    unfolding p(1)[symmetric] using p(2) by (simp only: if_False)
  ultimately show ?thesis using v unfolding t d by simp
qed

text \<open>
  Claim C2 (amended). For every non-empty key made only of hex digits and every non-empty IV
  that is valid hex, \<open>validateParameters\<close> throws the key-size error exactly when the key does
  not have 32, 48 or 64 digits; \<open>isValidKeySize\<close> accepts exactly these lengths; and a key of
  an even number \<open>2n\<close> of digits decodes to exactly \<open>n\<close> bytes. So such keys of 15 or 17 bytes
  are rejected and keys of 16, 24 or 32 bytes pass the key-size check.
\<close>

theorem validateParameters_key_size:
  assumes "keyHex \<noteq> []" and "list_all isHexChar keyHex" and "ivHex \<noteq> []" and "isValidHex ivHex"
  shows "(validateParameters config keyHex ivHex operation = Inl msgInvalidKeySize
            \<longleftrightarrow> \<not> (length keyHex = 32 \<or> length keyHex = 48 \<or> length keyHex = 64)) \<and>
         (isValidKeySize keyHex \<longleftrightarrow> length keyHex = 32 \<or> length keyHex = 48 \<or> length keyHex = 64) \<and>
         (even (length keyHex) \<longrightarrow>
            hexToUint8Array keyHex = Inr (decodePairs keyHex) \<and>
            length (decodePairs keyHex) = length keyHex div 2)"
proof (intro conjI impI)
  have k: "isValidHex keyHex" using assms(1,2) by (rule isValidHex_hex)
  show "validateParameters config keyHex ivHex operation = Inl msgInvalidKeySize
            \<longleftrightarrow> \<not> (length keyHex = 32 \<or> length keyHex = 48 \<or> length keyHex = 64)"
    using assms k by (auto simp: validateParameters_def isValidKeySize_iff msg_key_iv_neq msg_key_iv_neq[symmetric])
  show "isValidKeySize keyHex \<longleftrightarrow> length keyHex = 32 \<or> length keyHex = 48 \<or> length keyHex = 64"
    by (rule isValidKeySize_iff)
next
  assume e: "even (length keyHex)"
  show "hexToUint8Array keyHex = Inr (decodePairs keyHex)"
    using assms(1,2) e by (rule hexToUint8Array_hex)
  show "length (decodePairs keyHex) = length keyHex div 2"
    using e by (auto simp: length_decodePairs elim: evenE)
qed

theorem validateParameters_key_size_witness:
  "js ''00000000000000000000000000000000'' \<noteq> [] \<and>
   list_all isHexChar (js ''00000000000000000000000000000000'') \<and>
   isValidHex (js ''00000000000000000000000000000000'') \<and>
   validateParameters defaultConfig (js ''00000000000000000000000000000000'')
     (js ''00000000000000000000000000000000'') Encrypt \<noteq> Inl msgInvalidKeySize \<and>
   isValidKeySize (js ''00000000000000000000000000000000'') \<and>
   hexToUint8Array (js ''00000000000000000000000000000000'') =
     Inr (decodePairs (js ''00000000000000000000000000000000'')) \<and>
   length (decodePairs (js ''00000000000000000000000000000000'')) = 16"
proof -
  let ?z = "js ''00000000000000000000000000000000''"
  have n: "?z \<noteq> []" and h: "list_all isHexChar ?z" and l: "length ?z = 32"
    by (simp_all add: js_simps isHexChar_def)
  have v: "isValidHex ?z" using n h by (rule isValidHex_hex)
  show ?thesis
    using validateParameters_key_size[OF n h n v, of defaultConfig Encrypt] n h v l by simp
qed

text \<open>
  Claim C2 as stated fails at three inputs. A key of 30 digits between two spaces is valid hex
  for \<open>isValidHex\<close> and decodes to 15 bytes, and validation accepts it, since
  \<open>isValidKeySize\<close> counts the characters of the string as given. A key of 31 digits decodes
  to 16 bytes (a \<open>0\<close> is put in front) and does not pass the key-size check, since half of 31
  is not 16. And with the valid-hex key \<open>ab\<close> and the IV \<open>zz\<close>, validation throws the
  IV-format error, not the key-size error: the format of the IV is checked before the size of
  the key.
\<close>

theorem validateParameters_counterexample:
  "isValidHex (js '' 000000000000000000000000000000 '') \<and>
   hexToUint8Array (js '' 000000000000000000000000000000 '') = Inr [0,0,0,0,0,0,0,0,0,0,0,0,0,0,0] \<and>
   validateParameters defaultConfig (js '' 000000000000000000000000000000 '')
     (js ''00000000000000000000000000000000'') Encrypt = Inr () \<and>
   hexToUint8Array (js ''0000000000000000000000000000000'') = Inr [0,0,0,0,0,0,0,0,0,0,0,0,0,0,0,0] \<and>
   \<not> isValidKeySize (js ''0000000000000000000000000000000'') \<and>
   isValidHex (js ''ab'') \<and>
   validateParameters defaultConfig (js ''ab'') (js ''zz'') Encrypt = Inl msgIvNotHex \<and>
   msgIvNotHex \<noteq> msgInvalidKeySize"
proof -
  let ?k = "js '' 000000000000000000000000000000 ''"
  have t: "trim ?k = js ''000000000000000000000000000000''"
    by (simp add: trim_def js_simps isWhiteSpace_def)
  have h: "list_all isHexChar (js ''000000000000000000000000000000'')"
    by (simp add: js_simps isHexChar_def)
  have v: "isValidHex ?k"
    unfolding isValidHex_def t hexRegex_test_def using h by (simp add: js_simps)
  have d: "decodePairs (js ''000000000000000000000000000000'') = [0,0,0,0,0,0,0,0,0,0,0,0,0,0,0]"
    by (simp add: js_simps parseInt16_pair isHexChar_def hexVal_def toUint8_def)
  have "hexToUint8Array ?k = Inr (decodePairs (if even (length (trim ?k)) then trim ?k else 0x30 # trim ?k))"
    using v by (intro hexToUint8Array_decode) (simp add: isValidHex_trim)
  then have x: "hexToUint8Array ?k = Inr [0,0,0,0,0,0,0,0,0,0,0,0,0,0,0]"
    unfolding t d[symmetric] by (simp add: js_simps)
  have iv: "isValidHex (js ''00000000000000000000000000000000'')"
    by (intro isValidHex_hex) (simp_all add: js_simps isHexChar_def)
  have y: "validateParameters defaultConfig ?k (js ''00000000000000000000000000000000'') Encrypt = Inr ()"
    using v iv by (simp add: validateParameters_def isValidKeySize_iff isValidIVSize_iff defaultConfig_def)
      (simp add: js_simps)
  let ?o = "js ''0000000000000000000000000000000''"
  have oh: "list_all isHexChar ?o" and ol: "length ?o = 31"
    by (simp_all add: js_simps isHexChar_def)
  have ot: "trim ?o = ?o" using oh by (rule trim_hex)
  have ov: "isValidHex (trim ?o)"
    unfolding ot by (rule isValidHex_hex) (simp_all add: js_simps isHexChar_def)
  have od: "decodePairs (js ''00000000000000000000000000000000'') = [0,0,0,0,0,0,0,0,0,0,0,0,0,0,0,0]"
    by (simp add: js_simps parseInt16_pair isHexChar_def hexVal_def toUint8_def)
  have "hexToUint8Array ?o = Inr (decodePairs (if even (length (trim ?o)) then trim ?o else 0x30 # trim ?o))"
    using ov by (rule hexToUint8Array_decode)
  then have ox: "hexToUint8Array ?o = Inr [0,0,0,0,0,0,0,0,0,0,0,0,0,0,0,0]"
    unfolding ot od[symmetric] using ol by (simp add: js_simps)
  have os: "\<not> isValidKeySize ?o" using ol by (simp add: isValidKeySize_iff)
  have ab: "isValidHex (js ''ab'')"
    by (intro isValidHex_hex) (simp_all add: js_simps isHexChar_def)
  have zz: "\<not> isValidHex (js ''zz'')"
    by (simp add: isValidHex_def hexRegex_test_def trim_def js_simps isWhiteSpace_def isHexChar_def)
  have z: "validateParameters defaultConfig (js ''ab'') (js ''zz'') Encrypt = Inl msgIvNotHex"
    using ab zz by (simp add: validateParameters_def) (simp add: js_simps)
  have n: "msgIvNotHex \<noteq> msgInvalidKeySize"
    by (simp add: msgIvNotHex_def msgInvalidKeySize_def js_simps)
  show ?thesis using v x y ox os ab z n by simp
qed

section \<open>Claims about the cipher adapter\<close>

text \<open>
  Claim C5. For every key and IV that pass \<open>validateParameters\<close>, \<open>encrypt\<close> with an empty
  plaintext rejects with the empty-payload error (the text of the \<open>throw\<close> after the adapter's
  prefix), and no call of the platform cipher is made: neither key import nor the encrypt
  primitive.
\<close>

theorem encrypt_empty_plaintext:
  "validateParameters config keyHex ivHex Encrypt = Inr () \<Longrightarrow>
   encrypt P config [] keyHex ivHex = (Inl (encryptErrorPrefix @ msgEmptyPlainText), [])"
  by (simp add: encrypt_def encryptTry_def)

theorem encrypt_empty_plaintext_witness:
  "validateParameters defaultConfig zeros32 zeros32 Encrypt = Inr () \<and>
   encrypt (stubPlatform (Inr ()) (Inr [])) defaultConfig [] zeros32 zeros32
     = (Inl (encryptErrorPrefix @ msgEmptyPlainText), [])"
  using encrypt_empty_plaintext[OF zeros32_valid[of Encrypt], of "stubPlatform (Inr ()) (Inr [])"]
    zeros32_valid[of Encrypt] by simp

text \<open>
  Claim C3 (amended). When the parameters pass validation and the platform throws in key
  import or in the encrypt or decrypt primitive, the adapter rejects with an error whose
  message is the fixed prefix of the operation followed by the message of the platform's
  error; when what the platform throws is not an \<open>Error\<close>, the message is the fixed text for an
  unknown error.
\<close>

theorem cipher_errors_rewrapped:
  assumes "validateParameters config keyHex ivHex Encrypt = Inr ()"
    and "hexToUint8Array keyHex = Inr keyData" and "hexToUint8Array ivHex = Inr ivData"
  shows "(plainText \<noteq> [] \<and> importKey P keyData (algorithm config) = Inl t \<longrightarrow>
            fst (encrypt P config plainText keyHex ivHex) =
              Inl (case t of ErrorObj raw \<Rightarrow> encryptErrorPrefix @ raw | NonError \<Rightarrow> encryptErrorUnknown)) \<and>
         (plainText \<noteq> [] \<and> importKey P keyData (algorithm config) = Inr cryptoKey \<and>
          subtleEncrypt P (algorithm config) ivData cryptoKey (textEncode P plainText) = Inl t \<longrightarrow>
            fst (encrypt P config plainText keyHex ivHex) =
              Inl (case t of ErrorObj raw \<Rightarrow> encryptErrorPrefix @ raw | NonError \<Rightarrow> encryptErrorUnknown)) \<and>
         (isValidHex encryptedHex \<and> importKey P keyData (algorithm config) = Inl t \<longrightarrow>
            fst (decrypt P config encryptedHex keyHex ivHex) =
              Inl (case t of ErrorObj raw \<Rightarrow> decryptErrorPrefix @ raw | NonError \<Rightarrow> decryptErrorUnknown)) \<and>
         (isValidHex encryptedHex \<and> hexToUint8Array encryptedHex = Inr encryptedData \<and>
          importKey P keyData (algorithm config) = Inr cryptoKey \<and>
          subtleDecrypt P (algorithm config) ivData cryptoKey encryptedData = Inl t \<longrightarrow>
            fst (decrypt P config encryptedHex keyHex ivHex) =
              Inl (case t of ErrorObj raw \<Rightarrow> decryptErrorPrefix @ raw | NonError \<Rightarrow> decryptErrorUnknown))"
proof -
  from assms(1) have d: "validateParameters config keyHex ivHex Decrypt = Inr ()"
    by (auto simp: validateParameters_def split: if_splits)
  have e: "encryptedHex \<noteq> [] \<and> (\<exists>bs. hexToUint8Array encryptedHex = Inr bs)"
    if x: "isValidHex encryptedHex"
  proof
    show "encryptedHex \<noteq> []" using x by (auto simp: isValidHex_def hexRegex_test_def trim_def)
    have "isValidHex (trim encryptedHex)" using x by (simp add: isValidHex_trim)
    then show "\<exists>bs. hexToUint8Array encryptedHex = Inr bs"
      using hexToUint8Array_decode[of encryptedHex] by blast
  qed
  have 1: "plainText \<noteq> [] \<and> importKey P keyData (algorithm config) = Inl t \<longrightarrow>
            fst (encrypt P config plainText keyHex ivHex) =
              Inl (case t of ErrorObj raw \<Rightarrow> encryptErrorPrefix @ raw | NonError \<Rightarrow> encryptErrorUnknown)"
    using assms by (simp add: encrypt_def encryptTry_def createCryptoKey_def split: thrown.split)
  have 2: "plainText \<noteq> [] \<and> importKey P keyData (algorithm config) = Inr cryptoKey \<and>
          subtleEncrypt P (algorithm config) ivData cryptoKey (textEncode P plainText) = Inl t \<longrightarrow>
            fst (encrypt P config plainText keyHex ivHex) =
              Inl (case t of ErrorObj raw \<Rightarrow> encryptErrorPrefix @ raw | NonError \<Rightarrow> encryptErrorUnknown)"
    using assms by (simp add: encrypt_def encryptTry_def createCryptoKey_def split: thrown.split)
  have 3: "isValidHex encryptedHex \<and> importKey P keyData (algorithm config) = Inl t \<longrightarrow>
            fst (decrypt P config encryptedHex keyHex ivHex) =
              Inl (case t of ErrorObj raw \<Rightarrow> decryptErrorPrefix @ raw | NonError \<Rightarrow> decryptErrorUnknown)"
    using assms(2,3) d e by (auto simp: decrypt_def decryptTry_def createCryptoKey_def split: thrown.split)
  have 4: "isValidHex encryptedHex \<and> hexToUint8Array encryptedHex = Inr encryptedData \<and>
          importKey P keyData (algorithm config) = Inr cryptoKey \<and>
          subtleDecrypt P (algorithm config) ivData cryptoKey encryptedData = Inl t \<longrightarrow>
            fst (decrypt P config encryptedHex keyHex ivHex) =
              Inl (case t of ErrorObj raw \<Rightarrow> decryptErrorPrefix @ raw | NonError \<Rightarrow> decryptErrorUnknown)"
    using assms(2,3) d e by (auto simp: decrypt_def decryptTry_def createCryptoKey_def split: thrown.split)
  show ?thesis using 1 2 3 4 by blast
qed

theorem cipher_errors_rewrapped_witness:
  "validateParameters defaultConfig zeros32 zeros32 Encrypt = Inr () \<and>
   hexToUint8Array zeros32 = Inr (decodePairs zeros32) \<and>
   fst (encrypt (stubPlatform (Inl (ErrorObj (js ''boom''))) (Inr [])) defaultConfig (js ''hello'') zeros32 zeros32)
     = Inl (encryptErrorPrefix @ js ''boom'') \<and>
   fst (encrypt (stubPlatform (Inr ()) (Inl NonError)) defaultConfig (js ''hello'') zeros32 zeros32)
     = Inl encryptErrorUnknown \<and>
   fst (decrypt (stubPlatform (Inl (ErrorObj (js ''boom''))) (Inr [])) defaultConfig zeros32 zeros32 zeros32)
     = Inl (decryptErrorPrefix @ js ''boom'') \<and>
   fst (decrypt (stubPlatform (Inr ()) (Inl (ErrorObj (js ''bad'')))) defaultConfig zeros32 zeros32 zeros32)
     = Inl (decryptErrorPrefix @ js ''bad'')"
proof -
  note v = zeros32_valid[of Encrypt] and d = zeros32_decodes
  have h: "js ''hello'' \<noteq> []" by (simp add: js_simps)
  note a = cipher_errors_rewrapped[OF v d d, of "js ''hello''" "stubPlatform (Inl (ErrorObj (js ''boom''))) (Inr [])"
      "ErrorObj (js ''boom'')" "()" zeros32 "decodePairs zeros32"]
  note b = cipher_errors_rewrapped[OF v d d, of "js ''hello''" "stubPlatform (Inr ()) (Inl NonError)"
      NonError "()" zeros32 "decodePairs zeros32"]
  note c = cipher_errors_rewrapped[OF v d d, of "js ''hello''" "stubPlatform (Inr ()) (Inl (ErrorObj (js ''bad'')))"
      "ErrorObj (js ''bad'')" "()" zeros32 "decodePairs zeros32"]
  show ?thesis
    using a b c v d h zeros32_isValidHex by (simp add: stubPlatform_def)
qed

text \<open>
  Claim C3 as stated fails: when key import throws an error with the message \<open>boom\<close>, the
  message of the error \<open>encrypt\<close> rejects with contains \<open>boom\<close>.
\<close>

theorem cipher_error_text_counterexample:
  "fst (encrypt (stubPlatform (Inl (ErrorObj (js ''boom''))) (Inr [])) defaultConfig (js ''hello'') zeros32 zeros32)
     = Inl (encryptErrorPrefix @ js ''boom'') \<and>
   sublist (js ''boom'') (encryptErrorPrefix @ js ''boom'')"
  by (simp add: encrypt_def encryptTry_def zeros32_valid zeros32_decodes createCryptoKey_def stubPlatform_def js_simps)

section \<open>Claims about the message queue\<close>

text \<open>
  Claim C6. In the script's manager (duration by characters), \<open>addMessage\<close> schedules the
  removal of the message after \<open>baseDuration + message.length * durationFactor\<close>
  milliseconds, which is what \<open>calculateMessageDuration\<close> returns. With the configuration
  the constructor sets (3000, 50, 300), which no method assigns again, this is at least
  \<open>baseDuration\<close>, and a message of 100 characters is scheduled strictly longer than one of
  10 characters.
\<close>

theorem message_duration_script:
  "timers (snd (addMessage_script message type now s)) =
     timers s @ [(10, FadeIn (fresh s)),
                 (baseDuration (messageConfig s) + int (length message) * durationFactor (messageConfig s),
                  AutoRemove (fst (addMessage_script message type now s)))] \<and>
   calculateMessageDuration_script (messageConfig s) message =
     baseDuration (messageConfig s) + int (length message) * durationFactor (messageConfig s) \<and>
   messageConfig (snd (run_script evs s)) = messageConfig s \<and>
   (messageConfig s = scriptMessageConfig \<longrightarrow>
      baseDuration (messageConfig s) \<le> calculateMessageDuration_script (messageConfig s) message \<and>
      (length m100 = 100 \<and> length m10 = 10 \<longrightarrow>
         calculateMessageDuration_script (messageConfig s) m10
           < calculateMessageDuration_script (messageConfig s) m100))"
  by (simp add: timers_addMessage_script calculateMessageDuration_script_def scriptMessageConfig_def
      config_run_script)

theorem message_duration_script_witness:
  "messageConfig page0 = scriptMessageConfig \<and>
   length (replicate 100 (0x61::jschar)) = 100 \<and> length (replicate 10 (0x61::jschar)) = 10 \<and>
   baseDuration (messageConfig page0) \<le> calculateMessageDuration_script (messageConfig page0) (js ''ok'') \<and>
   calculateMessageDuration_script (messageConfig page0) (replicate 10 0x61) = 3500 \<and>
   calculateMessageDuration_script (messageConfig page0) (replicate 100 0x61) = 8000 \<and>
   calculateMessageDuration_script (messageConfig page0) (replicate 10 0x61)
     < calculateMessageDuration_script (messageConfig page0) (replicate 100 0x61)"
proof -
  have c: "messageConfig page0 = scriptMessageConfig"
    by (simp add: page0_def scriptMessageConfig_def defaultMessageConfig_def)
  have l: "length (replicate 100 (0x61::jschar)) = 100 \<and> length (replicate 10 (0x61::jschar)) = 10"
    by simp
  have v: "calculateMessageDuration_script (messageConfig page0) (replicate 10 0x61) = 3500"
    "calculateMessageDuration_script (messageConfig page0) (replicate 100 0x61) = 8000"
    by (simp_all add: calculateMessageDuration_script_def c scriptMessageConfig_def)
  from message_duration_script[of "js ''ok''" MsgSuccess 0 page0 "[]" "replicate 100 0x61" "replicate 10 0x61"]
  show ?thesis using c l v by simp
qed

text \<open>
  Claim C7. When no element of the document has the id, \<open>removeMessage\<close> changes nothing:
  no property, no timer, no removal. And after a first \<open>removeMessage\<close> whose deferred
  removal has run, the element is out of the document, so that a second call with the same
  id is such a no-op; this is for a document whose elements have a parent and where at most
  one element has the id, as for the ids \<open>addMessage\<close> makes. Both managers behave so.
\<close>

theorem removeMessage_twice_noop:
  "(getElementById s messageId = None \<longrightarrow>
      removeMessage messageId s = s \<and> removeMessage_script messageId s = s) \<and>
   (list_all (\<lambda>n. parentNode (store s n) \<noteq> None) (attached s) \<and>
    length (filter (\<lambda>n. elemId (store s n) = messageId) (attached s)) \<le> 1 \<longrightarrow>
      (let s2 = snd (step (FireTimer (length (timers s))) (removeMessage messageId s))
       in getElementById s2 messageId = None \<and> removeMessage messageId s2 = s2) \<and>
      (let s2 = snd (step_script (FireTimer (length (timers s))) (removeMessage_script messageId s))
       in getElementById s2 messageId = None \<and> removeMessage_script messageId s2 = s2))"
  by (simp add: Let_def removeMessage_absent removeMessage_script_absent remove_fire_module remove_fire_script)

theorem removeMessage_twice_noop_witness:
  "getElementById page0 (js ''msg-1-5'') = None \<and>
   removeMessage (js ''msg-1-5'') page0 = page0 \<and>
   removeMessage_script (js ''msg-1-5'') page0 = page0 \<and>
   list_all (\<lambda>n. parentNode (store page1 n) \<noteq> None) (attached page1) \<and>
   length (filter (\<lambda>n. elemId (store page1 n) = js ''msg-1-5'') (attached page1)) \<le> 1 \<and>
   getElementById page1 (js ''msg-1-5'') = Some 9 \<and>
   getElementById (snd (step (FireTimer (length (timers page1))) (removeMessage (js ''msg-1-5'') page1)))
     (js ''msg-1-5'') = None \<and>
   removeMessage (js ''msg-1-5'')
       (snd (step (FireTimer (length (timers page1))) (removeMessage (js ''msg-1-5'') page1)))
     = snd (step (FireTimer (length (timers page1))) (removeMessage (js ''msg-1-5'') page1)) \<and>
   removeMessage_script (js ''msg-1-5'')
       (snd (step_script (FireTimer (length (timers page1))) (removeMessage_script (js ''msg-1-5'') page1)))
     = snd (step_script (FireTimer (length (timers page1))) (removeMessage_script (js ''msg-1-5'') page1))"
proof -
  have a: "getElementById page0 (js ''msg-1-5'') = None"
    by (simp add: getElementById_def page0_def pageElement_def js_simps)
  with removeMessage_twice_noop[of page0 "js ''msg-1-5''"]
  have b: "removeMessage (js ''msg-1-5'') page0 = page0 \<and> removeMessage_script (js ''msg-1-5'') page0 = page0"
    by blast
  have u: "length (filter (\<lambda>n. elemId (store page1 n) = js ''msg-1-5'') (attached page1)) \<le> 1"
    by (simp only: page1_unique) simp
  from removeMessage_twice_noop[of page1 "js ''msg-1-5''"] page1_wf u
  have "(let s2 = snd (step (FireTimer (length (timers page1))) (removeMessage (js ''msg-1-5'') page1))
         in getElementById s2 (js ''msg-1-5'') = None \<and> removeMessage (js ''msg-1-5'') s2 = s2) \<and>
        (let s2 = snd (step_script (FireTimer (length (timers page1))) (removeMessage_script (js ''msg-1-5'') page1))
         in getElementById s2 (js ''msg-1-5'') = None \<and> removeMessage_script (js ''msg-1-5'') s2 = s2)"
    by blast
  then show ?thesis using a b page1_wf u page1_found by (simp add: Let_def)
qed

text \<open>
  Claim C8. In every session of a manager, the ids returned by the calls of \<open>addMessage\<close>
  are pairwise different; in particular two calls in a row with the same text, type and
  timestamp return different ids. The counter in the id is what tells them apart. Both
  managers behave so. (The counter is a JavaScript number, exact below \<open>2^53\<close>; it is a
  natural number here.)
\<close>

theorem message_ids_distinct:
  "distinct (fst (run evs s)) \<and> distinct (fst (run_script evs s)) \<and>
   fst (addMessage message type now (snd (addMessage message type now s)))
     \<noteq> fst (addMessage message type now s) \<and>
   fst (addMessage_script message type now (snd (addMessage_script message type now s)))
     \<noteq> fst (addMessage_script message type now s)"
proof (intro conjI)
  show "distinct (fst (run evs s))" by (rule run_distinct)
  show "distinct (fst (run_script evs s))" by (rule run_distinct_script)
  show "fst (addMessage message type now (snd (addMessage message type now s)))
     \<noteq> fst (addMessage message type now s)"
  proof
    assume "fst (addMessage message type now (snd (addMessage message type now s)))
       = fst (addMessage message type now s)"
    then have "js ''msg-'' @ toString10 (Suc (Suc (messageCounter s))) @ 0x2D # numberToString now
       = js ''msg-'' @ toString10 (Suc (messageCounter s)) @ 0x2D # numberToString now"
      by (simp only: fst_addMessage counter_addMessage)
    then have "Suc (Suc (messageCounter s)) = Suc (messageCounter s)"
      by (rule id_counter_inj) simp
    then show False by simp
  qed
  show "fst (addMessage_script message type now (snd (addMessage_script message type now s)))
     \<noteq> fst (addMessage_script message type now s)"
  proof
    assume "fst (addMessage_script message type now (snd (addMessage_script message type now s)))
       = fst (addMessage_script message type now s)"
    then have "js ''report_'' @ toString10 (Suc (Suc (messageCounter s))) @ 0x5F # numberToString now
       = js ''report_'' @ toString10 (Suc (messageCounter s)) @ 0x5F # numberToString now"
      by (simp only: fst_addMessage_script counter_addMessage_script)
    then have "Suc (Suc (messageCounter s)) = Suc (messageCounter s)"
      by (rule id_counter_inj) simp
    then show False by simp
  qed
qed

theorem message_ids_distinct_witness:
  "distinct (fst (run [AddMessage (js ''ok'') MsgSuccess 5, AddMessage (js ''ok'') MsgSuccess 5] page0)) \<and>
   fst (run [AddMessage (js ''ok'') MsgSuccess 5, AddMessage (js ''ok'') MsgSuccess 5] page0)
     = [js ''msg-1-5'', js ''msg-2-5'']"
  using message_ids_distinct[of "[AddMessage (js ''ok'') MsgSuccess 5, AddMessage (js ''ok'') MsgSuccess 5]" page0]
    ids_page0 by simp

section \<open>Claims about the orchestrator's writes\<close>

text \<open>
  Claim C9. When the orchestrator writes an operation result, an encryption result is
  written into the decryption input and a decryption result into the encryption input, and
  the other fields are left as they were. The script's \<open>setOutputValues\<close> does not do this
  for a decryption result that is the empty string: on a page whose encryption input holds
  the text \<open>old\<close>, the call \<open>setOutputValues({decryptedOutput: ''})\<close> of \<open>handleDecrypt\<close>
  changes nothing, and the encryption input still holds \<open>old\<close>, where the module's
  \<open>updateOutputValues\<close> writes the empty result.
\<close>

theorem setOutputValues_script_empty_result:
  "content (store page0 (encryptInput (elements page0))) = Text (js ''old'') \<and>
   setOutputValues_script [(js ''decryptedOutput'', [])] page0 = page0 \<and>
   content (store (setOutputValues_script [(js ''decryptedOutput'', [])] page0)
              (encryptInput (elements page0))) = Text (js ''old'') \<and>
   content (store (updateOutputValues [(js ''decryptedOutput'', Some [])] page0)
              (encryptInput (elements page0))) = Markup []"
proof -
  have a: "content (store page0 (encryptInput (elements page0))) = Text (js ''old'')"
    by (simp add: page0_def pageElement_def)
  have b: "setOutputValues_script [(js ''decryptedOutput'', [])] page0 = page0"
    by (simp add: setOutputValues_script_decrypted)
  have r: "reserialize (htmlParser page0) [] = []"
    by (simp add: page0_def plainMarkup_def)
  have "content (store (setContentEditableValue (encryptInput (elements page0)) [] page0)
              (encryptInput (elements page0))) = Markup []"
    using r by (intro module_write_content) simp_all
  then have c: "content (store (updateOutputValues [(js ''decryptedOutput'', Some [])] page0)
              (encryptInput (elements page0))) = Markup []"
    by (simp only: updateOutputValues_decrypted)
  show ?thesis using a b c by simp
qed

end
